theory Spec2Isabelle
  imports Main "HOL-Library.Word" "HOL-Library.Monad_Syntax" "HOL-Library.AList"
begin

unbundle bit_operations_syntax

section \<open>Byte buffers and text formatting\<close>

text \<open>
  A firmware buffer is a Python \<open>bytes\<close>/\<open>bytearray\<close>: a sequence of values 0..255.
  Addresses and cursor arithmetic are Python integers (unbounded); the cursor \<open>pc\<close> only
  ever grows from 0, so it is a natural number.
\<close>

type_synonym byte = "8 word"

text \<open>
  \<open>data[i]\<close> with a non-negative index: a read outside the buffer raises IndexError,
  modelled as \<open>None\<close>. Every analysis pass is written over this checked read, so a pass
  that returns \<open>Some\<close> has read only indices below the buffer length.
\<close>

definition byte_at :: "byte list \<Rightarrow> nat \<Rightarrow> byte option" where
  "byte_at data i = (if i < length data then Some (data ! i) else None)"

text \<open>\<open>rel = data[k]; if rel > 127: rel -= 256\<close>\<close>

definition signed_rel :: "byte \<Rightarrow> int" where
  "signed_rel b = (let rel = uint b in if rel > 127 then rel - 256 else rel)"

text \<open>\<open>(hi << 8) | lo\<close> on Python integers.\<close>

definition be16 :: "byte \<Rightarrow> byte \<Rightarrow> int" where
  "be16 hi lo = (push_bit 8 (uint hi)) OR (uint lo)"

definition hexchar :: "nat \<Rightarrow> char" where
  "hexchar d = (''0123456789ABCDEF'') ! d"

fun hex_digits :: "nat \<Rightarrow> string" where
  "hex_digits n = (if n < 16 then [hexchar n] else hex_digits (n div 16) @ [hexchar (n mod 16)])"

text \<open>
  The format specification \<open>{n:0wX}\<close>: upper-case hexadecimal, zero-padded to width \<open>w\<close>;
  for a negative number the sign comes first and counts towards the width.
\<close>

definition fmt_0X :: "nat \<Rightarrow> int \<Rightarrow> string" where
  "fmt_0X w n =
     (let ds = hex_digits (nat \<bar>n\<bar>) in
      if n < 0 then CHR ''-'' # replicate (w - 1 - length ds) CHR ''0'' @ ds
      else replicate (w - length ds) CHR ''0'' @ ds)"

text \<open>The format specification \<open>{s:ws}\<close>: left-aligned, padded with spaces to width \<open>w\<close>.\<close>

definition fmt_s :: "nat \<Rightarrow> string \<Rightarrow> string" where
  "fmt_s w s = s @ replicate (w - length s) CHR '' ''"

text \<open>\<open>' '.join(parts)\<close>\<close>

fun join_sp :: "string list \<Rightarrow> string" where
  "join_sp [] = []"
| "join_sp [s] = s"
| "join_sp (s # t # ss) = s @ '' '' @ join_sp (t # ss)"

section \<open>Opcode tables (hc08\_disasm.py)\<close>

datatype AddressingMode =
    INH | IMM | DIR | EXT | IX | IX1 | IX2 | REL
  | DIR_REL | IMM_REL | IX_REL | IX1_REL | SP1 | SP2 | SP1_REL

type_synonym OpcodeEntry = "string \<times> AddressingMode \<times> nat"

definition HC08_OPCODES_literal :: "(byte \<times> OpcodeEntry) list" where
  "HC08_OPCODES_literal = [
     (0x20, (''BRA'', REL, 2)), (0x21, (''BRN'', REL, 2)), (0x22, (''BHI'', REL, 2)),
     (0x23, (''BLS'', REL, 2)), (0x24, (''BCC'', REL, 2)), (0x25, (''BCS'', REL, 2)),
     (0x26, (''BNE'', REL, 2)), (0x27, (''BEQ'', REL, 2)), (0x28, (''BHCC'', REL, 2)),
     (0x29, (''BHCS'', REL, 2)), (0x2A, (''BPL'', REL, 2)), (0x2B, (''BMI'', REL, 2)),
     (0x2C, (''BMC'', REL, 2)), (0x2D, (''BMS'', REL, 2)), (0x2E, (''BIL'', REL, 2)),
     (0x2F, (''BIH'', REL, 2)), (0x30, (''NEG'', DIR, 2)), (0x33, (''COM'', DIR, 2)),
     (0x34, (''LSR'', DIR, 2)), (0x36, (''ROR'', DIR, 2)), (0x37, (''ASR'', DIR, 2)),
     (0x38, (''LSL'', DIR, 2)), (0x39, (''ROL'', DIR, 2)), (0x3A, (''DEC'', DIR, 2)),
     (0x3C, (''INC'', DIR, 2)), (0x3D, (''TST'', DIR, 2)), (0x3F, (''CLR'', DIR, 2)),
     (0x40, (''NEGA'', INH, 1)), (0x41, (''CBEQA'', IMM_REL, 3)), (0x42, (''MUL'', INH, 1)),
     (0x43, (''COMA'', INH, 1)), (0x44, (''LSRA'', INH, 1)), (0x46, (''RORA'', INH, 1)),
     (0x47, (''ASRA'', INH, 1)), (0x48, (''LSLA'', INH, 1)), (0x49, (''ROLA'', INH, 1)),
     (0x4A, (''DECA'', INH, 1)), (0x4B, (''DBNZA'', REL, 2)), (0x4C, (''INCA'', INH, 1)),
     (0x4D, (''TSTA'', INH, 1)), (0x4F, (''CLRA'', INH, 1)), (0x50, (''NEGX'', INH, 1)),
     (0x51, (''CBEQX'', IMM_REL, 3)), (0x52, (''DIV'', INH, 1)), (0x53, (''COMX'', INH, 1)),
     (0x54, (''LSRX'', INH, 1)), (0x56, (''RORX'', INH, 1)), (0x57, (''ASRX'', INH, 1)),
     (0x58, (''LSLX'', INH, 1)), (0x59, (''ROLX'', INH, 1)), (0x5A, (''DECX'', INH, 1)),
     (0x5B, (''DBNZX'', REL, 2)), (0x5C, (''INCX'', INH, 1)), (0x5D, (''TSTX'', INH, 1)),
     (0x5F, (''CLRX'', INH, 1)), (0x60, (''NEG'', IX, 1)), (0x61, (''CBEQ'', IX_REL, 2)),
     (0x63, (''COM'', IX, 1)), (0x64, (''LSR'', IX, 1)), (0x66, (''ROR'', IX, 1)),
     (0x67, (''ASR'', IX, 1)), (0x68, (''LSL'', IX, 1)), (0x69, (''ROL'', IX, 1)),
     (0x6A, (''DEC'', IX, 1)), (0x6B, (''DBNZ'', IX_REL, 2)), (0x6C, (''INC'', IX, 1)),
     (0x6D, (''TST'', IX, 1)), (0x6F, (''CLR'', IX, 1)), (0x70, (''NEG'', IX1, 2)),
     (0x71, (''CBEQ'', IX1_REL, 3)), (0x73, (''COM'', IX1, 2)), (0x74, (''LSR'', IX1, 2)),
     (0x76, (''ROR'', IX1, 2)), (0x77, (''ASR'', IX1, 2)), (0x78, (''LSL'', IX1, 2)),
     (0x79, (''ROL'', IX1, 2)), (0x7A, (''DEC'', IX1, 2)), (0x7B, (''DBNZ'', IX1_REL, 3)),
     (0x7C, (''INC'', IX1, 2)), (0x7D, (''TST'', IX1, 2)), (0x7F, (''CLR'', IX1, 2)),
     (0x80, (''RTI'', INH, 1)), (0x81, (''RTS'', INH, 1)), (0x83, (''SWI'', INH, 1)),
     (0x84, (''TAP'', INH, 1)), (0x85, (''TPA'', INH, 1)), (0x86, (''PULA'', INH, 1)),
     (0x87, (''PSHA'', INH, 1)), (0x88, (''PULX'', INH, 1)), (0x89, (''PSHX'', INH, 1)),
     (0x8A, (''PULH'', INH, 1)), (0x8B, (''PSHH'', INH, 1)), (0x8C, (''CLRH'', INH, 1)),
     (0x8E, (''STOP'', INH, 1)), (0x8F, (''WAIT'', INH, 1)), (0x90, (''BGE'', REL, 2)),
     (0x91, (''BLT'', REL, 2)), (0x92, (''BGT'', REL, 2)), (0x93, (''BLE'', REL, 2)),
     (0x94, (''TXS'', INH, 1)), (0x95, (''TSX'', INH, 1)), (0x97, (''TAX'', INH, 1)),
     (0x98, (''CLC'', INH, 1)), (0x99, (''SEC'', INH, 1)), (0x9A, (''CLI'', INH, 1)),
     (0x9B, (''SEI'', INH, 1)), (0x9C, (''RSP'', INH, 1)), (0x9D, (''NOP'', INH, 1)),
     (0x9F, (''TXA'', INH, 1)), (0xA0, (''SUB'', IMM, 2)), (0xA1, (''CMP'', IMM, 2)),
     (0xA2, (''SBC'', IMM, 2)), (0xA3, (''CPX'', IMM, 2)), (0xA4, (''AND'', IMM, 2)),
     (0xA5, (''BIT'', IMM, 2)), (0xA6, (''LDA'', IMM, 2)), (0xA8, (''EOR'', IMM, 2)),
     (0xA9, (''ADC'', IMM, 2)), (0xAA, (''ORA'', IMM, 2)), (0xAB, (''ADD'', IMM, 2)),
     (0xAD, (''BSR'', REL, 2)), (0xAE, (''LDX'', IMM, 2)), (0xAF, (''AIX'', IMM, 2)),
     (0xB0, (''SUB'', DIR, 2)), (0xB1, (''CMP'', DIR, 2)), (0xB2, (''SBC'', DIR, 2)),
     (0xB3, (''CPX'', DIR, 2)), (0xB4, (''AND'', DIR, 2)), (0xB5, (''BIT'', DIR, 2)),
     (0xB6, (''LDA'', DIR, 2)), (0xB7, (''STA'', DIR, 2)), (0xB8, (''EOR'', DIR, 2)),
     (0xB9, (''ADC'', DIR, 2)), (0xBA, (''ORA'', DIR, 2)), (0xBB, (''ADD'', DIR, 2)),
     (0xBC, (''JMP'', DIR, 2)), (0xBD, (''JSR'', DIR, 2)), (0xBE, (''LDX'', DIR, 2)),
     (0xBF, (''STX'', DIR, 2)), (0xC0, (''SUB'', EXT, 3)), (0xC1, (''CMP'', EXT, 3)),
     (0xC2, (''SBC'', EXT, 3)), (0xC3, (''CPX'', EXT, 3)), (0xC4, (''AND'', EXT, 3)),
     (0xC5, (''BIT'', EXT, 3)), (0xC6, (''LDA'', EXT, 3)), (0xC7, (''STA'', EXT, 3)),
     (0xC8, (''EOR'', EXT, 3)), (0xC9, (''ADC'', EXT, 3)), (0xCA, (''ORA'', EXT, 3)),
     (0xCB, (''ADD'', EXT, 3)), (0xCC, (''JMP'', EXT, 3)), (0xCD, (''JSR'', EXT, 3)),
     (0xCE, (''LDX'', EXT, 3)), (0xCF, (''STX'', EXT, 3)), (0xD0, (''SUB'', IX2, 3)),
     (0xD1, (''CMP'', IX2, 3)), (0xD2, (''SBC'', IX2, 3)), (0xD3, (''CPX'', IX2, 3)),
     (0xD4, (''AND'', IX2, 3)), (0xD5, (''BIT'', IX2, 3)), (0xD6, (''LDA'', IX2, 3)),
     (0xD7, (''STA'', IX2, 3)), (0xD8, (''EOR'', IX2, 3)), (0xD9, (''ADC'', IX2, 3)),
     (0xDA, (''ORA'', IX2, 3)), (0xDB, (''ADD'', IX2, 3)), (0xDC, (''JMP'', IX2, 3)),
     (0xDD, (''JSR'', IX2, 3)), (0xDE, (''LDX'', IX2, 3)), (0xDF, (''STX'', IX2, 3)),
     (0xE0, (''SUB'', IX1, 2)), (0xE1, (''CMP'', IX1, 2)), (0xE2, (''SBC'', IX1, 2)),
     (0xE3, (''CPX'', IX1, 2)), (0xE4, (''AND'', IX1, 2)), (0xE5, (''BIT'', IX1, 2)),
     (0xE6, (''LDA'', IX1, 2)), (0xE7, (''STA'', IX1, 2)), (0xE8, (''EOR'', IX1, 2)),
     (0xE9, (''ADC'', IX1, 2)), (0xEA, (''ORA'', IX1, 2)), (0xEB, (''ADD'', IX1, 2)),
     (0xEC, (''JMP'', IX1, 2)), (0xED, (''JSR'', IX1, 2)), (0xEE, (''LDX'', IX1, 2)),
     (0xEF, (''STX'', IX1, 2)), (0xF0, (''SUB'', IX, 1)), (0xF1, (''CMP'', IX, 1)),
     (0xF2, (''SBC'', IX, 1)), (0xF3, (''CPX'', IX, 1)), (0xF4, (''AND'', IX, 1)),
     (0xF5, (''BIT'', IX, 1)), (0xF6, (''LDA'', IX, 1)), (0xF7, (''STA'', IX, 1)),
     (0xF8, (''EOR'', IX, 1)), (0xF9, (''ADC'', IX, 1)), (0xFA, (''ORA'', IX, 1)),
     (0xFB, (''ADD'', IX, 1)), (0xFC, (''JMP'', IX, 1)), (0xFD, (''JSR'', IX, 1)),
     (0xFE, (''LDX'', IX, 1)), (0xFF, (''STX'', IX, 1))]"

text \<open>
  The loop \<open>for i in range(8)\<close> that adds the bit-manipulation opcodes 0x00..0x1F
  after the literal; \<open>f"BRSET{i}"\<close> appends the decimal digit of \<open>i\<close>.
\<close>

definition str_digit :: "nat \<Rightarrow> string" where
  "str_digit i = [hexchar i]"

definition bit_manip_entries :: "nat \<Rightarrow> (byte \<times> OpcodeEntry) list" where
  "bit_manip_entries i =
     [(of_nat (0x00 + i * 2), (''BRSET'' @ str_digit i, DIR_REL, 3)),
      (of_nat (0x01 + i * 2), (''BRCLR'' @ str_digit i, DIR_REL, 3)),
      (of_nat (0x10 + i * 2), (''BSET'' @ str_digit i, DIR, 2)),
      (of_nat (0x11 + i * 2), (''BCLR'' @ str_digit i, DIR, 2))]"

text \<open>Assignments made by the loop take precedence over the literal, as in a dict.\<close>

definition HC08_OPCODES_entries :: "(byte \<times> OpcodeEntry) list" where
  "HC08_OPCODES_entries = concat (map bit_manip_entries [0..<8]) @ HC08_OPCODES_literal"

definition HC08_OPCODES :: "byte \<Rightarrow> OpcodeEntry option" where
  "HC08_OPCODES = map_of HC08_OPCODES_entries"

definition HC08_9E_OPCODES_entries :: "(byte \<times> OpcodeEntry) list" where
  "HC08_9E_OPCODES_entries = [
     (0x60, (''NEG'', SP1, 2)), (0x63, (''COM'', SP1, 2)), (0x64, (''LSR'', SP1, 2)),
     (0x66, (''ROR'', SP1, 2)), (0x67, (''ASR'', SP1, 2)), (0x68, (''LSL'', SP1, 2)),
     (0x69, (''ROL'', SP1, 2)), (0x6A, (''DEC'', SP1, 2)), (0x6B, (''DBNZ'', SP1_REL, 3)),
     (0x6C, (''INC'', SP1, 2)), (0x6D, (''TST'', SP1, 2)), (0x6F, (''CLR'', SP1, 2)),
     (0xD0, (''SUB'', SP2, 3)), (0xD1, (''CMP'', SP2, 3)), (0xD2, (''SBC'', SP2, 3)),
     (0xD3, (''CPX'', SP2, 3)), (0xD4, (''AND'', SP2, 3)), (0xD5, (''BIT'', SP2, 3)),
     (0xD6, (''LDA'', SP2, 3)), (0xD7, (''STA'', SP2, 3)), (0xD8, (''EOR'', SP2, 3)),
     (0xD9, (''ADC'', SP2, 3)), (0xDA, (''ORA'', SP2, 3)), (0xDB, (''ADD'', SP2, 3)),
     (0xE0, (''SUB'', SP1, 2)), (0xE1, (''CMP'', SP1, 2)), (0xE2, (''SBC'', SP1, 2)),
     (0xE3, (''CPX'', SP1, 2)), (0xE4, (''AND'', SP1, 2)), (0xE5, (''BIT'', SP1, 2)),
     (0xE6, (''LDA'', SP1, 2)), (0xE7, (''STA'', SP1, 2)), (0xE8, (''EOR'', SP1, 2)),
     (0xE9, (''ADC'', SP1, 2)), (0xEA, (''ORA'', SP1, 2)), (0xEB, (''ADD'', SP1, 2))]"

definition HC08_9E_OPCODES :: "byte \<Rightarrow> OpcodeEntry option" where
  "HC08_9E_OPCODES = map_of HC08_9E_OPCODES_entries"

definition IO_REGS_entries :: "(int \<times> string) list" where
  "IO_REGS_entries = [
     (0x00, ''PORTA''), (0x01, ''PORTB''), (0x02, ''PORTC''), (0x03, ''PORTD''),
     (0x04, ''DDRA''), (0x05, ''DDRB''), (0x06, ''DDRC''), (0x07, ''DDRD''),
     (0x08, ''PORTE''), (0x09, ''PORTF''), (0x0A, ''PORTG''), (0x0C, ''DDRE''),
     (0x0D, ''DDRF''), (0x0E, ''DDRG''), (0x10, ''PTAPUE''), (0x11, ''PTBPUE''),
     (0x12, ''PTCPUE''), (0x13, ''PTDPUE''), (0x1A, ''SCI1S1''), (0x1B, ''SCI1S2''),
     (0x1C, ''SCI1C1''), (0x1D, ''SCI1C2''), (0x1E, ''SCI1C3''), (0x1F, ''SCI1D''),
     (0x20, ''SPIC1''), (0x21, ''SPIC2''), (0x22, ''SPIBR''), (0x23, ''SPIS''),
     (0x25, ''SPID''), (0x30, ''T1SC''), (0x31, ''T1CNTH''), (0x32, ''T1CNTL''),
     (0x33, ''T1MODH''), (0x34, ''T1MODL''), (0x35, ''T1SC0''), (0x36, ''T1CH0H''),
     (0x37, ''T1CH0L''), (0x38, ''T1SC1''), (0x39, ''T1CH1H''), (0x3A, ''T1CH1L''),
     (0x40, ''ADCSC1''), (0x41, ''ADCSC2''), (0x42, ''ADCRH''), (0x43, ''ADCRL''),
     (0x48, ''CANCTL0''), (0x49, ''CANCTL1''), (0x4A, ''CANBTR0''), (0x4B, ''CANBTR1''),
     (0x4C, ''CANRFLG''), (0x4D, ''CANRIER''), (0x4E, ''CANTFLG''), (0x4F, ''CANTIER'')]"

definition IO_REGS :: "int \<Rightarrow> string option" where
  "IO_REGS = map_of IO_REGS_entries"

definition get_reg_name :: "int \<Rightarrow> string option" where
  "get_reg_name a =
     (case IO_REGS a of
        Some name \<Rightarrow> Some name
      | None \<Rightarrow>
          if a < 0x40 then Some (''REG_'' @ fmt_0X 2 a)
          else if a < 0x0840 then Some (''RAM_'' @ fmt_0X 4 a)
          else None)"

section \<open>The disassembler (hc08\_disasm.py, \<open>disassemble\<close>)\<close>

text \<open>
  One emitted line. The Python code appends a formatted string; the record keeps the
  values that are interpolated into it (address, the bytes shown, mnemonic, operand text)
  together with the amount \<open>consumed\<close> by which the cursor is advanced afterwards.
  \<open>format_line\<close> gives the text itself.
\<close>

record Instruction =
  addr :: int
  raw :: "byte list"
  mnem :: string
  operand :: string
  consumed :: nat

definition format_line :: "Instruction \<Rightarrow> string" where
  "format_line ins =
     fmt_0X 4 (addr ins) @ '': '' @ fmt_s 15 (join_sp (map (\<lambda>b. fmt_0X 2 (uint b)) (raw ins)))
       @ '' '' @ fmt_s 8 (mnem ins) @ '' '' @ operand ins"

text \<open>\<open>[data[pc+i] for i in range(n)]\<close>\<close>

definition bytes_from :: "byte list \<Rightarrow> nat \<Rightarrow> nat \<Rightarrow> byte list option" where
  "bytes_from data pc n = those (map (\<lambda>i. byte_at data (pc + i)) [0..<n])"

text \<open>The undecoded one-byte line \<open>DB $xx\<close>.\<close>

definition db_line :: "int \<Rightarrow> byte \<Rightarrow> Instruction" where
  "db_line a opcode =
     \<lparr>addr = a, raw = [opcode], mnem = ''DB'', operand = ''$'' @ fmt_0X 2 (uint opcode),
      consumed = 1\<rparr>"

text \<open>Operand text of an instruction behind the 0x9E prefix; \<open>sz\<close> includes the prefix.\<close>

definition operand_9E :: "byte list \<Rightarrow> nat \<Rightarrow> int \<Rightarrow> AddressingMode \<Rightarrow> nat \<Rightarrow> string option" where
  "operand_9E data pc a mode sz =
     (if mode = SP1 \<and> pc + 2 < length data then do {
        offset \<leftarrow> byte_at data (pc + 2);
        Some (''$'' @ fmt_0X 2 (uint offset) @ '',SP'')
      }
      else if mode = SP2 \<and> pc + 3 < length data then do {
        hi \<leftarrow> byte_at data (pc + 2);
        lo \<leftarrow> byte_at data (pc + 3);
        Some (''$'' @ fmt_0X 4 (be16 hi lo) @ '',SP'')
      }
      else if mode = SP1_REL \<and> pc + 3 < length data then do {
        offset \<leftarrow> byte_at data (pc + 2);
        rel \<leftarrow> byte_at data (pc + 3);
        let target = a + int sz + signed_rel rel;
        Some (''$'' @ fmt_0X 2 (uint offset) @ '',SP, $'' @ fmt_0X 4 target)
      }
      else Some ''???'')"

text \<open>Operand text of an instruction of the primary table.\<close>

definition direct_operand :: "byte \<Rightarrow> string" where
  "direct_operand dir_addr =
     (case get_reg_name (uint dir_addr) of
        Some reg_name \<Rightarrow> ''<'' @ reg_name
      | None \<Rightarrow> ''<$'' @ fmt_0X 2 (uint dir_addr))"

definition operand_primary :: "byte list \<Rightarrow> nat \<Rightarrow> int \<Rightarrow> AddressingMode \<Rightarrow> nat \<Rightarrow> string option" where
  "operand_primary data pc a mode sz =
     (if mode = INH then Some ''''
      else if mode = IMM then do {
        imm \<leftarrow> byte_at data (pc + 1);
        Some (''#$'' @ fmt_0X 2 (uint imm))
      }
      else if mode = DIR then do {
        dir_addr \<leftarrow> byte_at data (pc + 1);
        Some (direct_operand dir_addr)
      }
      else if mode = EXT then do {
        hi \<leftarrow> byte_at data (pc + 1);
        lo \<leftarrow> byte_at data (pc + 2);
        Some (''$'' @ fmt_0X 4 (be16 hi lo))
      }
      else if mode = IX then Some '',X''
      else if mode = IX1 then do {
        offset \<leftarrow> byte_at data (pc + 1);
        Some (''$'' @ fmt_0X 2 (uint offset) @ '',X'')
      }
      else if mode = IX2 then do {
        hi \<leftarrow> byte_at data (pc + 1);
        lo \<leftarrow> byte_at data (pc + 2);
        Some (''$'' @ fmt_0X 4 (be16 hi lo) @ '',X'')
      }
      else if mode = REL then do {
        rel \<leftarrow> byte_at data (pc + 1);
        let target = a + int sz + signed_rel rel;
        Some (''$'' @ fmt_0X 4 target)
      }
      else if mode = DIR_REL then do {
        dir_addr \<leftarrow> byte_at data (pc + 1);
        rel \<leftarrow> byte_at data (pc + 2);
        let target = a + int sz + signed_rel rel;
        Some (direct_operand dir_addr @ '', $'' @ fmt_0X 4 target)
      }
      else if mode = IMM_REL then do {
        imm \<leftarrow> byte_at data (pc + 1);
        rel \<leftarrow> byte_at data (pc + 2);
        let target = a + int sz + signed_rel rel;
        Some (''#$'' @ fmt_0X 2 (uint imm) @ '', $'' @ fmt_0X 4 target)
      }
      else if mode = IX_REL then do {
        rel \<leftarrow> byte_at data (pc + 1);
        let target = a + int sz + signed_rel rel;
        Some ('',X, $'' @ fmt_0X 4 target)
      }
      else if mode = IX1_REL then do {
        offset \<leftarrow> byte_at data (pc + 1);
        rel \<leftarrow> byte_at data (pc + 2);
        let target = a + int sz + signed_rel rel;
        Some (''$'' @ fmt_0X 2 (uint offset) @ '',X, $'' @ fmt_0X 4 target)
      }
      else Some ''???'')"

text \<open>
  The part of the loop body after the prefix check: an opcode missing from the primary
  table, or one whose tabulated size does not fit the rest of the buffer, is emitted as
  a one-byte \<open>DB\<close> line.
\<close>

definition decode_primary :: "byte list \<Rightarrow> nat \<Rightarrow> int \<Rightarrow> byte \<Rightarrow> Instruction option" where
  "decode_primary data pc a opcode =
     (case HC08_OPCODES opcode of
        None \<Rightarrow> Some (db_line a opcode)
      | Some (mn, mode, sz) \<Rightarrow>
          if pc + sz > length data then Some (db_line a opcode)
          else do {
            bs \<leftarrow> bytes_from data pc sz;
            opnd \<leftarrow> operand_primary data pc a mode sz;
            Some \<lparr>addr = a, raw = bs, mnem = mn, operand = opnd, consumed = sz\<rparr>
          })"

text \<open>
  The prefixed branch: taken when the opcode is 0x9E, a next byte exists and is in the
  secondary table. The size is the tabulated one plus one for the prefix; the bytes shown
  are cut at the end of the buffer, the cursor advance is not.
\<close>

definition decode_9E :: "byte list \<Rightarrow> nat \<Rightarrow> int \<Rightarrow> OpcodeEntry \<Rightarrow> Instruction option" where
  "decode_9E data pc a entry =
     (case entry of (mn, mode, size0) \<Rightarrow> do {
        let sz = size0 + 1;
        bs \<leftarrow> bytes_from data pc (min sz (length data - pc));
        opnd \<leftarrow> operand_9E data pc a mode sz;
        Some \<lparr>addr = a, raw = bs, mnem = mn, operand = opnd, consumed = sz\<rparr>
      })"

text \<open>One pass through the body of the \<open>while\<close> loop, at cursor \<open>pc\<close>.\<close>

definition disassemble_step :: "byte list \<Rightarrow> int \<Rightarrow> nat \<Rightarrow> Instruction option" where
  "disassemble_step data base_addr pc = do {
     let a = base_addr + int pc;
     opcode \<leftarrow> byte_at data pc;
     if opcode = 0x9E \<and> pc + 1 < length data then do {
       sub_op \<leftarrow> byte_at data (pc + 1);
       case HC08_9E_OPCODES sub_op of
         Some entry \<Rightarrow> decode_9E data pc a entry
       | None \<Rightarrow> decode_primary data pc a opcode
     }
     else decode_primary data pc a opcode
   }"

text \<open>\<open>if max_lines and lines >= max_lines: break\<close>; \<open>None\<close> and 0 are both falsy.\<close>

definition cap_reached :: "int option \<Rightarrow> int \<Rightarrow> bool" where
  "cap_reached max_lines lines =
     (case max_lines of None \<Rightarrow> False | Some m \<Rightarrow> m \<noteq> 0 \<and> lines \<ge> m)"


section \<open>Every step decodes something\<close>

text \<open>How many bytes, counted from the opcode, the operand rendering of a mode reads.\<close>

definition mode_reads :: "AddressingMode \<Rightarrow> nat" where
  "mode_reads m = (case m of INH \<Rightarrow> 1 | IX \<Rightarrow> 1 | IMM \<Rightarrow> 2 | DIR \<Rightarrow> 2 | IX1 \<Rightarrow> 2 | REL \<Rightarrow> 2 | IX_REL \<Rightarrow> 2
     | EXT \<Rightarrow> 3 | IX2 \<Rightarrow> 3 | DIR_REL \<Rightarrow> 3 | IMM_REL \<Rightarrow> 3 | IX1_REL \<Rightarrow> 3 | _ \<Rightarrow> 1)"

lemma upt8: "[0..<8] = [0,1,2,3,4,5,6,7]"
  by (simp add: upt_rec)

lemma HC08_OPCODES_entries_ok:
  "list_all (\<lambda>(k, mn, m, sz). mode_reads m \<le> sz \<and> 1 \<le> sz \<and> sz \<le> 3) HC08_OPCODES_entries"
  by (simp add: HC08_OPCODES_entries_def HC08_OPCODES_literal_def bit_manip_entries_def upt8 mode_reads_def)

lemma HC08_OPCODES_size:
  assumes "HC08_OPCODES op = Some (mn, m, sz)"
  shows "mode_reads m \<le> sz \<and> 1 \<le> sz \<and> sz \<le> 3"
proof -
  from assms have "(op, mn, m, sz) \<in> set HC08_OPCODES_entries"
    unfolding HC08_OPCODES_def by (rule map_of_SomeD)
  with HC08_OPCODES_entries_ok show ?thesis
    by (auto simp: list_all_iff)
qed



lemma byte_at_Some [simp]: "i < length data \<Longrightarrow> byte_at data i = Some (data ! i)"
  by (simp add: byte_at_def)

lemma those_map_Some: "those (map (\<lambda>i. Some (f i)) xs) = Some (map f xs)"
  by (induction xs) simp_all

lemma bytes_from_Some:
  assumes "pc + n \<le> length data"
  shows "bytes_from data pc n = Some (take n (drop pc data))"
proof -
  have e1: "map (\<lambda>i. byte_at data (pc + i)) [0..<n] = map (\<lambda>i. Some (data ! (pc + i))) [0..<n]"
    using assms by (intro map_cong) auto
  have e2: "map (\<lambda>i. data ! (pc + i)) [0..<n] = take n (drop pc data)"
    using assms by (intro nth_equalityI) auto
  show ?thesis
    unfolding bytes_from_def e1 those_map_Some e2 ..
qed

lemma operand_9E_Some: "\<exists>s. operand_9E data pc a m sz = Some s"
  by (simp add: operand_9E_def)

lemma operand_primary_Some:
  assumes "pc + sz \<le> length data" "mode_reads m \<le> sz"
  shows "\<exists>s. operand_primary data pc a m sz = Some s"
  using assms by (cases m) (simp_all add: operand_primary_def mode_reads_def)

lemma decode_primary_Some:
  assumes "pc < length data" "data ! pc = op"
  shows "\<exists>ins. decode_primary data pc a op = Some ins \<and> addr ins = a \<and> 1 \<le> consumed ins
           \<and> pc + consumed ins \<le> length data \<and> raw ins = take (consumed ins) (drop pc data)"
proof (cases "HC08_OPCODES op")
  case None
  with assms show ?thesis
    by (simp add: decode_primary_def db_line_def take_Suc_conv_app_nth hd_drop_conv_nth take_Suc)
next
  case (Some e)
  obtain mn m sz where e: "e = (mn, m, sz)" by (cases e)
  from Some e have sz: "mode_reads m \<le> sz" "1 \<le> sz"
    using HC08_OPCODES_size by blast+
  show ?thesis
  proof (cases "pc + sz > length data")
    case True
    with assms Some e show ?thesis
      by (simp add: decode_primary_def db_line_def hd_drop_conv_nth take_Suc)
  next
    case False
    then have fit: "pc + sz \<le> length data" by simp
    from operand_primary_Some [OF fit sz(1)] obtain s where "operand_primary data pc a m sz = Some s"
      by blast
    with Some e fit sz show ?thesis
      by (simp add: decode_primary_def bytes_from_Some)
  qed
qed

lemma decode_9E_Some:
  assumes "pc < length data" "HC08_9E_OPCODES sub = Some entry"
  shows "\<exists>ins. decode_9E data pc a entry = Some ins \<and> addr ins = a \<and> 1 \<le> consumed ins
           \<and> raw ins = take (consumed ins) (drop pc data)"
proof -
  obtain mn m sz where e: "entry = (mn, m, sz)" by (cases entry)
  obtain s where s: "operand_9E data pc a m (sz + 1) = Some s"
    using operand_9E_Some by blast
  have "pc + min (sz + 1) (length data - pc) \<le> length data" using assms by simp
  from bytes_from_Some [OF this] s e show ?thesis
    by (simp add: decode_9E_def min_def)
qed

lemma disassemble_step_Some:
  assumes "pc < length data"
  shows "\<exists>ins. disassemble_step data base_addr pc = Some ins \<and> addr ins = base_addr + int pc
           \<and> 1 \<le> consumed ins \<and> raw ins = take (consumed ins) (drop pc data)"
proof -
  let ?a = "base_addr + int pc"
  from decode_primary_Some [OF assms refl, of ?a]
  have prim: "\<exists>ins. decode_primary data pc ?a (data ! pc) = Some ins \<and> addr ins = ?a
           \<and> 1 \<le> consumed ins \<and> raw ins = take (consumed ins) (drop pc data)"
    by blast
  show ?thesis
  proof (cases "data ! pc = 0x9E \<and> pc + 1 < length data")
    case False
    with assms prim show ?thesis
      by (auto simp add: disassemble_step_def Let_def)
  next
    case True
    show ?thesis
    proof (cases "HC08_9E_OPCODES (data ! (pc + 1))")
      case None
      with True assms prim show ?thesis
        by (auto simp add: disassemble_step_def Let_def)
    next
      case (Some entry)
      from decode_9E_Some [OF assms Some, of ?a] Some True assms show ?thesis
        by (auto simp add: disassemble_step_def Let_def)
    qed
  qed
qed

lemma disassemble_step_consumed:
  assumes "disassemble_step data base_addr pc = Some ins"
  shows "1 \<le> consumed ins"
proof (cases "pc < length data")
  case True
  from disassemble_step_Some [OF True, of base_addr] assms show ?thesis by auto
next
  case False
  with assms show ?thesis by (simp add: disassemble_step_def byte_at_def)
qed

section \<open>The disassembly loop\<close>

function disassemble_loop ::
  "byte list \<Rightarrow> int \<Rightarrow> int option \<Rightarrow> nat \<Rightarrow> int \<Rightarrow> Instruction list \<Rightarrow> Instruction list option"
where
  "disassemble_loop data base_addr max_lines pc lines output =
     (if pc < length data then
        if cap_reached max_lines lines then Some output
        else
          case disassemble_step data base_addr pc of
            None \<Rightarrow> None
          | Some ins \<Rightarrow>
              disassemble_loop data base_addr max_lines (pc + consumed ins) (lines + 1)
                (output @ [ins])
      else Some output)"
  by pat_completeness auto
termination
  by (relation "measure (\<lambda>(data, base_addr, max_lines, pc, lines, output). length data - pc)")
     (auto dest: disassemble_step_consumed)

declare disassemble_loop.simps [simp del]

definition disassemble_records :: "byte list \<Rightarrow> int \<Rightarrow> int option \<Rightarrow> Instruction list option" where
  "disassemble_records data base_addr max_lines = disassemble_loop data base_addr max_lines 0 0 []"

text \<open>The list of text lines that \<open>disassemble\<close> returns.\<close>

definition disassemble :: "byte list \<Rightarrow> int \<Rightarrow> int option \<Rightarrow> string list option" where
  "disassemble data base_addr max_lines =
     map_option (map format_line) (disassemble_records data base_addr max_lines)"

section \<open>The firmware analyzer (analyze\_pdm.py)\<close>

text \<open>The analyzer has its own register table; only membership of a key is tested.\<close>

definition IO_REGS_pdm_entries :: "(int \<times> string) list" where
  "IO_REGS_pdm_entries = [
     (0x00, ''PORTA''), (0x01, ''PORTB''), (0x02, ''PORTC''), (0x03, ''PORTD''),
     (0x04, ''DDRA''), (0x05, ''DDRB''), (0x06, ''DDRC''), (0x07, ''DDRD''),
     (0x08, ''PORTE''), (0x09, ''PORTF''), (0x0A, ''PORTG''), (0x0C, ''DDRE''),
     (0x0D, ''DDRF''), (0x0E, ''DDRG''), (0x10, ''PTAPUE''), (0x11, ''PTBPUE''),
     (0x12, ''PTCPUE''), (0x13, ''PTDPUE''), (0x14, ''PTEPUE''), (0x15, ''PTFPUE''),
     (0x16, ''PTGPUE''), (0x18, ''SCC1''), (0x19, ''SCC2''), (0x1A, ''SCC3''),
     (0x1B, ''SCS1''), (0x1C, ''SCS2''), (0x1D, ''SCDR''), (0x1E, ''SCBR''),
     (0x20, ''SPCR''), (0x21, ''SPSCR''), (0x22, ''SPDR''), (0x24, ''TBCR''),
     (0x25, ''TBDR''), (0x30, ''T1SC''), (0x31, ''T1CNTH''), (0x32, ''T1CNTL''),
     (0x33, ''T1MODH''), (0x34, ''T1MODL''), (0x35, ''T1SC0''), (0x36, ''T1CH0H''),
     (0x37, ''T1CH0L''), (0x38, ''T1SC1''), (0x39, ''T1CH1H''), (0x3A, ''T1CH1L''),
     (0x40, ''T2SC''), (0x41, ''T2CNTH''), (0x42, ''T2CNTL''), (0x43, ''T2MODH''),
     (0x44, ''T2MODL''), (0x45, ''T2SC0''), (0x46, ''T2CH0H''), (0x47, ''T2CH0L''),
     (0x48, ''T2SC1''), (0x49, ''T2CH1H''), (0x4A, ''T2CH1L''), (0x50, ''ADSCR''),
     (0x51, ''ADR''), (0x58, ''CMCR0''), (0x59, ''CMCR1''), (0x5A, ''CBTR0''),
     (0x5B, ''CBTR1''), (0x5C, ''CRFLG''), (0x5D, ''CRIER''), (0x5E, ''CTFLG''),
     (0x5F, ''CTIER''), (0x60, ''CTARQ''), (0x61, ''CTAAK''), (0x62, ''CTBSEL''),
     (0x63, ''CIDAC''), (0x64, ''CRXERR''), (0x65, ''CTXERR''), (0x68, ''CIDAR0''),
     (0x69, ''CIDAR1''), (0x6A, ''CIDAR2''), (0x6B, ''CIDAR3''), (0x70, ''CIDMR0''),
     (0x71, ''CIDMR1''), (0x72, ''CIDMR2''), (0x73, ''CIDMR3''), (0x74, ''CIDAR4''),
     (0x75, ''CIDAR5''), (0x76, ''CIDAR6''), (0x77, ''CIDAR7''), (0x78, ''CIDMR4''),
     (0x79, ''CIDMR5''), (0x7A, ''CIDMR6''), (0x7B, ''CIDMR7''), (0x80, ''CRXFG''),
     (0x90, ''CTXFG''), (0xFE00, ''CONFIG2''), (0xFE01, ''CONFIG1'')]"

definition IO_REGS_pdm :: "int \<Rightarrow> string option" where
  "IO_REGS_pdm = map_of IO_REGS_pdm_entries"

subsection \<open>\<open>find_subroutines\<close>\<close>

function find_subroutines_loop :: "byte list \<Rightarrow> int \<Rightarrow> nat \<Rightarrow> int set \<Rightarrow> int set option" where
  "find_subroutines_loop data base pc subs =
     (if pc < length data then do {
        op \<leftarrow> byte_at data pc;
        if op = 0xBD \<and> pc + 1 < length data then do {
          t \<leftarrow> byte_at data (pc + 1);
          find_subroutines_loop data base (pc + 2) (insert (uint t) subs)
        }
        else if op = 0xCD \<and> pc + 2 < length data then do {
          hi \<leftarrow> byte_at data (pc + 1);
          lo \<leftarrow> byte_at data (pc + 2);
          find_subroutines_loop data base (pc + 3) (insert (be16 hi lo) subs)
        }
        else if op = 0xAD \<and> pc + 1 < length data then do {
          rel \<leftarrow> byte_at data (pc + 1);
          find_subroutines_loop data base (pc + 2)
            (insert (base + int pc + 2 + signed_rel rel) subs)
        }
        else find_subroutines_loop data base (pc + 1) subs
      }
      else Some subs)"
  by pat_completeness auto
termination
  by (relation "measure (\<lambda>(data, base, pc, subs). length data - pc)") auto

declare find_subroutines_loop.simps [simp del]

text \<open>\<open>return sorted(subs)\<close>\<close>

definition find_subroutines :: "byte list \<Rightarrow> int \<Rightarrow> int list option" where
  "find_subroutines data base =
     map_option sorted_list_of_set (find_subroutines_loop data base 0 {})"

subsection \<open>\<open>find_io_accesses\<close>\<close>

text \<open>\<open>sites[reg].append(addr)\<close> on a \<open>defaultdict(list)\<close>.\<close>

definition append_site :: "(int \<rightharpoonup> int list) \<Rightarrow> int \<Rightarrow> int \<Rightarrow> (int \<rightharpoonup> int list)" where
  "append_site sites reg a = sites(reg \<mapsto> (case sites reg of None \<Rightarrow> [] | Some l \<Rightarrow> l) @ [a])"

definition note_site :: "(int \<rightharpoonup> int list) \<Rightarrow> int \<Rightarrow> int \<Rightarrow> (int \<rightharpoonup> int list)" where
  "note_site sites reg a = (if IO_REGS_pdm reg \<noteq> None then append_site sites reg a else sites)"

function find_io_accesses_loop ::
  "byte list \<Rightarrow> int \<Rightarrow> nat \<Rightarrow> (int \<rightharpoonup> int list) \<Rightarrow> (int \<rightharpoonup> int list)
     \<Rightarrow> ((int \<rightharpoonup> int list) \<times> (int \<rightharpoonup> int list)) option"
where
  "find_io_accesses_loop data base pc io_reads io_writes =
     (if pc < length data then do {
        op \<leftarrow> byte_at data pc;
        let a = base + int pc;
        if op = 0xB6 \<and> pc + 1 < length data then do {
          reg \<leftarrow> byte_at data (pc + 1);
          find_io_accesses_loop data base (pc + 2) (note_site io_reads (uint reg) a) io_writes
        }
        else if op = 0xB7 \<and> pc + 1 < length data then do {
          reg \<leftarrow> byte_at data (pc + 1);
          find_io_accesses_loop data base (pc + 2) io_reads (note_site io_writes (uint reg) a)
        }
        else if op = 0xBE \<and> pc + 1 < length data then do {
          reg \<leftarrow> byte_at data (pc + 1);
          find_io_accesses_loop data base (pc + 2) (note_site io_reads (uint reg) a) io_writes
        }
        else if op = 0xBF \<and> pc + 1 < length data then do {
          reg \<leftarrow> byte_at data (pc + 1);
          find_io_accesses_loop data base (pc + 2) io_reads (note_site io_writes (uint reg) a)
        }
        else if 0x10 \<le> uint op \<and> uint op \<le> 0x1F \<and> pc + 1 < length data then do {
          reg \<leftarrow> byte_at data (pc + 1);
          find_io_accesses_loop data base (pc + 2) io_reads (note_site io_writes (uint reg) a)
        }
        else if 0x00 \<le> uint op \<and> uint op \<le> 0x0F \<and> pc + 2 < length data then do {
          reg \<leftarrow> byte_at data (pc + 1);
          find_io_accesses_loop data base (pc + 3) (note_site io_reads (uint reg) a) io_writes
        }
        else if op = 0xC6 \<and> pc + 2 < length data then do {
          hi \<leftarrow> byte_at data (pc + 1);
          lo \<leftarrow> byte_at data (pc + 2);
          find_io_accesses_loop data base (pc + 3) (note_site io_reads (be16 hi lo) a) io_writes
        }
        else if op = 0xC7 \<and> pc + 2 < length data then do {
          hi \<leftarrow> byte_at data (pc + 1);
          lo \<leftarrow> byte_at data (pc + 2);
          find_io_accesses_loop data base (pc + 3) io_reads (note_site io_writes (be16 hi lo) a)
        }
        else find_io_accesses_loop data base (pc + 1) io_reads io_writes
      }
      else Some (io_reads, io_writes))"
  by pat_completeness auto
termination
  by (relation "measure (\<lambda>(data, base, pc, r, w). length data - pc)") auto

declare find_io_accesses_loop.simps [simp del]

definition find_io_accesses ::
  "byte list \<Rightarrow> int \<Rightarrow> ((int \<rightharpoonup> int list) \<times> (int \<rightharpoonup> int list)) option" where
  "find_io_accesses data base = find_io_accesses_loop data base 0 Map.empty Map.empty"

subsection \<open>\<open>find_ram_usage\<close>\<close>

text \<open>\<open>counts[ext] += 1\<close> on a \<open>defaultdict(int)\<close>.\<close>

definition bump :: "(int \<rightharpoonup> int) \<Rightarrow> int \<Rightarrow> (int \<rightharpoonup> int)" where
  "bump counts k = counts(k \<mapsto> (case counts k of None \<Rightarrow> 0 | Some c \<Rightarrow> c) + 1)"

function find_ram_usage_loop ::
  "byte list \<Rightarrow> int \<Rightarrow> nat \<Rightarrow> (int \<rightharpoonup> int) \<Rightarrow> (int \<rightharpoonup> int)
     \<Rightarrow> ((int \<rightharpoonup> int) \<times> (int \<rightharpoonup> int)) option"
where
  "find_ram_usage_loop data base pc ram_reads ram_writes =
     (if pc < length data then do {
        op \<leftarrow> byte_at data pc;
        if 0xC0 \<le> uint op \<and> uint op \<le> 0xCF \<and> op \<notin> set [0xCC, 0xCD] \<and> pc + 2 < length data then do {
          hi \<leftarrow> byte_at data (pc + 1);
          lo \<leftarrow> byte_at data (pc + 2);
          let ext = be16 hi lo;
          if 0x0040 \<le> ext \<and> ext \<le> 0x083F then
            if op = 0xC7 then
              find_ram_usage_loop data base (pc + 3) ram_reads (bump ram_writes ext)
            else
              find_ram_usage_loop data base (pc + 3) (bump ram_reads ext) ram_writes
          else find_ram_usage_loop data base (pc + 3) ram_reads ram_writes
        }
        else find_ram_usage_loop data base (pc + 1) ram_reads ram_writes
      }
      else Some (ram_reads, ram_writes))"
  by pat_completeness auto
termination
  by (relation "measure (\<lambda>(data, base, pc, r, w). length data - pc)") auto

declare find_ram_usage_loop.simps [simp del]

definition find_ram_usage ::
  "byte list \<Rightarrow> int \<Rightarrow> ((int \<rightharpoonup> int) \<times> (int \<rightharpoonup> int)) option" where
  "find_ram_usage data base = find_ram_usage_loop data base 0 Map.empty Map.empty"

subsection \<open>\<open>find_strings\<close>\<close>

definition printable :: "byte \<Rightarrow> bool" where
  "printable b = (0x20 \<le> uint b \<and> uint b \<le> 0x7E)"

text \<open>The inner loop \<open>while i < len(data) and 0x20 <= data[i] <= 0x7E: i += 1\<close>.\<close>

function scan_printable :: "byte list \<Rightarrow> nat \<Rightarrow> nat option" where
  "scan_printable data i =
     (if i < length data then do {
        b \<leftarrow> byte_at data i;
        if printable b then scan_printable data (i + 1) else Some i
      }
      else Some i)"
  by pat_completeness auto
termination
  by (relation "measure (\<lambda>(data, i). length data - i)") auto

declare scan_printable.simps [simp del]

text \<open>\<open>bytes(data[start:i]).decode('ascii')\<close>, on bytes that are all printable ASCII.\<close>

definition decode_ascii :: "byte list \<Rightarrow> string" where
  "decode_ascii bs = map (\<lambda>b. char_of (unat b)) bs"

lemma scan_printable_ge: "scan_printable data i = Some j \<Longrightarrow> i \<le> j"
proof (induction data i rule: scan_printable.induct)
  case (1 data i)
  then show ?case
    by (subst (asm) (2) scan_printable.simps)
       (auto simp: byte_at_def split: if_splits dest: Suc_leD)
qed

function find_strings_loop ::
  "byte list \<Rightarrow> int \<Rightarrow> int \<Rightarrow> nat \<Rightarrow> (int \<times> string) list \<Rightarrow> (int \<times> string) list option"
where
  "find_strings_loop data base min_len i strings =
     (if i < length data then do {
        b \<leftarrow> byte_at data i;
        if printable b then do {
          let start = i;
          j \<leftarrow> scan_printable data i;
          let strings' =
            (if int j - int start \<ge> min_len
             then strings @ [(base + int start, decode_ascii (take (j - start) (drop start data)))]
             else strings);
          find_strings_loop data base min_len (j + 1) strings'
        }
        else find_strings_loop data base min_len (i + 1) strings
      }
      else Some strings)"
  by pat_completeness auto
termination
  by (relation "measure (\<lambda>(data, base, min_len, i, strings). length data - i)")
     (auto dest: scan_printable_ge)

declare find_strings_loop.simps [simp del]

definition find_strings :: "byte list \<Rightarrow> int \<Rightarrow> int \<Rightarrow> (int \<times> string) list option" where
  "find_strings data base min_len = find_strings_loop data base min_len 0 []"

subsection \<open>\<open>analyze_main_loop\<close>\<close>

definition branch_opcodes :: "byte list" where
  "branch_opcodes = [0x20, 0x22, 0x23, 0x24, 0x25, 0x26, 0x27, 0x28, 0x29,
                     0x2A, 0x2B, 0x2C, 0x2D, 0x2E, 0x2F, 0x90, 0x91, 0x92, 0x93]"

text \<open>The body of \<open>if pc + 1 < len(data)\<close>: a loop site is appended when \<open>rel < 0\<close>.\<close>

definition note_branch ::
  "byte list \<Rightarrow> int \<Rightarrow> nat \<Rightarrow> (int \<times> int \<times> int) list \<Rightarrow> (int \<times> int \<times> int) list option" where
  "note_branch data base pc loops =
     (if pc + 1 < length data then do {
        b \<leftarrow> byte_at data (pc + 1);
        let rel = signed_rel b;
        let target = base + int pc + 2 + rel;
        Some (if rel < 0 then loops @ [(base + int pc, target, - rel)] else loops)
      }
      else Some loops)"

function analyze_main_loop_from ::
  "byte list \<Rightarrow> int \<Rightarrow> nat \<Rightarrow> (int \<times> int \<times> int) list \<Rightarrow> (int \<times> int \<times> int) list option"
where
  "analyze_main_loop_from data base pc loops =
     (if pc < length data then do {
        op \<leftarrow> byte_at data pc;
        if op \<in> set branch_opcodes then do {
          loops' \<leftarrow> note_branch data base pc loops;
          analyze_main_loop_from data base (pc + 2) loops'
        }
        else analyze_main_loop_from data base (pc + 1) loops
      }
      else Some loops)"
  by pat_completeness auto
termination
  by (relation "measure (\<lambda>(data, base, pc, loops). length data - pc)") auto

declare analyze_main_loop_from.simps [simp del]

definition analyze_main_loop :: "byte list \<Rightarrow> int \<Rightarrow> (int \<times> int \<times> int) list option" where
  "analyze_main_loop data base = analyze_main_loop_from data base 0 []"

section \<open>The image loader (srec\_to\_bin.py)\<close>

datatype py_error = ValueError | IndexError | TypeError

text \<open>
  The memory is a Python dict from address to byte: keys are unique and keep their
  insertion order, which \<open>AList.update\<close> does too. \<open>start_addr\<close> is \<open>None\<close> until the
  first data record.
\<close>

type_synonym memory = "(int \<times> byte) list"
type_synonym load_state = "memory \<times> int option \<times> int"

text \<open>
  Whitespace removed by \<open>str.strip()\<close>, among 8-bit characters: tab, line feed, vertical
  tab, form feed, carriage return, the separators 0x1C..0x1F, space, 0x85 and 0xA0.
\<close>

definition is_space :: "char \<Rightarrow> bool" where
  "is_space c = (of_char c \<in> set [9, 10, 11, 12, 13, 28, 29, 30, 31, 32, 133, 160 :: nat])"

definition strip :: "string \<Rightarrow> string" where
  "strip s = rev (dropWhile is_space (rev (dropWhile is_space s)))"

text \<open>
  The slice \<open>s[i:j]\<close> with a non-negative start: a negative end counts from the end of
  the string, both bounds are clamped to the length.
\<close>

definition py_slice :: "'a list \<Rightarrow> nat \<Rightarrow> int \<Rightarrow> 'a list" where
  "py_slice s i j =
     (let n = int (length s);
          j' = (if j < 0 then max 0 (j + n) else min j n)
      in take (nat j' - i) (drop i s))"

text \<open>
  The two library calls \<open>int(text, 16)\<close> and \<open>bytes.fromhex(text)\<close> are parameters of the
  loader, \<open>None\<close> standing for the ValueError they raise: what is proved holds for
  whatever they accept. \<open>hex_int\<close> and \<open>hex_bytes\<close> agree with them on plain strings of
  hexadecimal digits and reject every other text, also text that the library calls
  accept (a sign, a \<open>0x\<close> prefix, underscores, white space); they only serve to evaluate
  the loader on concrete records made of hexadecimal digits.
\<close>

definition hex_val :: "char \<Rightarrow> nat option" where
  "hex_val c =
     (let k = (of_char c :: nat) in
      if 48 \<le> k \<and> k \<le> 57 then Some (k - 48)
      else if 65 \<le> k \<and> k \<le> 70 then Some (k - 55)
      else if 97 \<le> k \<and> k \<le> 102 then Some (k - 87)
      else None)"

fun hex_int_acc :: "int \<Rightarrow> string \<Rightarrow> int option" where
  "hex_int_acc acc [] = Some acc"
| "hex_int_acc acc (c # cs) =
     (case hex_val c of None \<Rightarrow> None | Some d \<Rightarrow> hex_int_acc (acc * 16 + int d) cs)"

definition hex_int :: "string \<Rightarrow> int option" where
  "hex_int s = (if s = [] then None else hex_int_acc 0 s)"

fun hex_bytes :: "string \<Rightarrow> byte list option" where
  "hex_bytes [] = Some []"
| "hex_bytes [c] = None"
| "hex_bytes (c # d # cs) =
     (case (hex_val c, hex_val d) of
        (Some h, Some l) \<Rightarrow> map_option ((#) (of_nat (h * 16 + l))) (hex_bytes cs)
      | _ \<Rightarrow> None)"

definition raise_value_error :: "'a option \<Rightarrow> py_error + 'a" where
  "raise_value_error r = (case r of None \<Rightarrow> Inl ValueError | Some v \<Rightarrow> Inr v)"

text \<open>
  What a data record does to the state: \<open>start_addr\<close> becomes the least record address,
  \<open>end_addr\<close> the greatest end of a record, and every byte is stored at
  \<open>address + i\<close>.
\<close>

definition store_record :: "load_state \<Rightarrow> int \<Rightarrow> byte list \<Rightarrow> load_state" where
  "store_record st address data =
     (case st of (memory, start_addr, end_addr) \<Rightarrow>
        let start_addr' =
              (case start_addr of
                 None \<Rightarrow> Some address
               | Some s \<Rightarrow> if address < s then Some address else Some s);
            end_addr' =
              (if address + int (length data) > end_addr then address + int (length data)
               else end_addr);
            memory' = fold (\<lambda>(i, b) m. AList.update (address + int i) b m) (enumerate 0 data) memory
        in (memory', start_addr', end_addr'))"

text \<open>
  One line of the file. The messages printed for a header, an entry point or a line
  without the marker are not part of the state; the conversions made to print them are
  kept, since they can raise.
\<close>

definition parse_line ::
  "(string \<Rightarrow> int option) \<Rightarrow> (string \<Rightarrow> byte list option) \<Rightarrow> load_state \<Rightarrow> string
     \<Rightarrow> py_error + load_state" where
  "parse_line int16 fromhex st raw_line =
     (let line = strip raw_line in
      if line = [] then Inr st
      else if hd line \<noteq> CHR ''S'' then Inr st
      else if length line < 2 then Inl IndexError
      else
        let record_type = line ! 1 in
        if record_type = CHR ''0'' then
          (case raise_value_error (int16 (py_slice line 2 4)) of
             Inl e \<Rightarrow> Inl e
           | Inr byte_count \<Rightarrow>
               (case raise_value_error (fromhex (py_slice line 8 (8 + (byte_count - 3) * 2))) of
                  Inl e \<Rightarrow> Inl e
                | Inr header \<Rightarrow> Inr st))
        else if record_type = CHR ''1'' then
          (case raise_value_error (int16 (py_slice line 2 4)) of
             Inl e \<Rightarrow> Inl e
           | Inr byte_count \<Rightarrow>
               (case raise_value_error (int16 (py_slice line 4 8)) of
                  Inl e \<Rightarrow> Inl e
                | Inr address \<Rightarrow>
                    (case raise_value_error (fromhex (py_slice line 8 (8 + (byte_count - 3) * 2))) of
                       Inl e \<Rightarrow> Inl e
                     | Inr data \<Rightarrow> Inr (store_record st address data))))
        else if record_type = CHR ''2'' then
          (case raise_value_error (int16 (py_slice line 2 4)) of
             Inl e \<Rightarrow> Inl e
           | Inr byte_count \<Rightarrow>
               (case raise_value_error (int16 (py_slice line 4 10)) of
                  Inl e \<Rightarrow> Inl e
                | Inr address \<Rightarrow>
                    (case raise_value_error (fromhex (py_slice line 10 (10 + (byte_count - 4) * 2))) of
                       Inl e \<Rightarrow> Inl e
                     | Inr data \<Rightarrow> Inr (store_record st address data))))
        else if record_type = CHR ''9'' then
          (case raise_value_error (int16 (py_slice line 4 8)) of
             Inl e \<Rightarrow> Inl e
           | Inr entry_point \<Rightarrow> Inr st)
        else if record_type = CHR ''8'' then
          (case raise_value_error (int16 (py_slice line 4 10)) of
             Inl e \<Rightarrow> Inl e
           | Inr entry_point \<Rightarrow> Inr st)
        else Inr st)"

fun parse_lines ::
  "(string \<Rightarrow> int option) \<Rightarrow> (string \<Rightarrow> byte list option) \<Rightarrow> load_state \<Rightarrow> string list
     \<Rightarrow> py_error + load_state" where
  "parse_lines int16 fromhex st [] = Inr st"
| "parse_lines int16 fromhex st (l # ls) =
     (case parse_line int16 fromhex st l of
        Inl e \<Rightarrow> Inl e
      | Inr st' \<Rightarrow> parse_lines int16 fromhex st' ls)"

definition parse_srec ::
  "(string \<Rightarrow> int option) \<Rightarrow> (string \<Rightarrow> byte list option) \<Rightarrow> string list
     \<Rightarrow> py_error + load_state" where
  "parse_srec int16 fromhex file_lines = parse_lines int16 fromhex ([], None, 0) file_lines"

text \<open>
  \<open>save_binary\<close>: the bytes written to the output file, and the size returned.
  \<open>end_addr - start_addr\<close> raises TypeError when \<open>start_addr\<close> is \<open>None\<close>, and
  \<open>bytearray(size)\<close> raises ValueError for a negative size.
\<close>

definition save_binary :: "memory \<Rightarrow> int option \<Rightarrow> int \<Rightarrow> py_error + (byte list \<times> int)" where
  "save_binary memory start_addr end_addr =
     (case start_addr of
        None \<Rightarrow> Inl TypeError
      | Some s \<Rightarrow>
          let sz = end_addr - s in
          if sz < 0 then Inl ValueError
          else
            let binary0 = replicate (nat sz) (0 :: byte);
                binary1 = fold (\<lambda>i b. b[i := 0xFF]) [0..<nat sz] binary0;
                binary2 = fold (\<lambda>(a, byte) b.
                                  let offset = a - s in
                                  if 0 \<le> offset \<and> offset < sz then b[nat offset := byte] else b)
                               memory binary1
            in Inr (binary2, sz))"

text \<open>A line that the loader treats as a data record (type 1 or 2).\<close>

definition is_data_line :: "string \<Rightarrow> bool" where
  "is_data_line raw_line =
     (let line = strip raw_line in
      2 \<le> length line \<and> hd line = CHR ''S'' \<and> (line ! 1 = CHR ''1'' \<or> line ! 1 = CHR ''2''))"

section \<open>Notions used to state the properties\<close>





text \<open>
  The cursor positions the loop scan visits, and what is recorded at one of them, stated
  apart from the loop: a branch opcode whose displacement byte is inside the buffer and
  negative.
\<close>

definition branch_width :: "byte list \<Rightarrow> nat \<Rightarrow> nat" where
  "branch_width data pc = (if data ! pc \<in> set branch_opcodes then 2 else 1)"

function branch_cursors :: "byte list \<Rightarrow> nat \<Rightarrow> nat list" where
  "branch_cursors data pc =
     (if pc < length data then pc # branch_cursors data (pc + branch_width data pc) else [])"
  by pat_completeness auto
termination
  by (relation "measure (\<lambda>(data, pc). length data - pc)") (auto simp: branch_width_def)

declare branch_cursors.simps [simp del]

definition backward_site :: "byte list \<Rightarrow> int \<Rightarrow> nat \<Rightarrow> (int \<times> int \<times> int) option" where
  "backward_site data base pc =
     (if data ! pc \<in> set branch_opcodes \<and> pc + 1 < length data \<and> sint (data ! (pc + 1)) < 0
      then Some (base + int pc, base + int pc + 2 + sint (data ! (pc + 1)), - sint (data ! (pc + 1)))
      else None)"

text \<open>
  The target of each of the three call forms at a cursor position inside the buffer, and
  the cursor positions the subroutine scan visits, stated apart from the loop.
\<close>

definition call_target :: "byte list \<Rightarrow> int \<Rightarrow> nat \<Rightarrow> int option" where
  "call_target data base pc =
     (if data ! pc = 0xBD \<and> pc + 1 < length data then Some (uint (data ! (pc + 1)))
      else if data ! pc = 0xCD \<and> pc + 2 < length data
        then Some (uint (data ! (pc + 1)) * 256 + uint (data ! (pc + 2)))
      else if data ! pc = 0xAD \<and> pc + 1 < length data
        then Some (base + int pc + 2 + sint (data ! (pc + 1)))
      else None)"

definition call_width :: "byte list \<Rightarrow> nat \<Rightarrow> nat" where
  "call_width data pc =
     (if data ! pc = 0xBD \<and> pc + 1 < length data then 2
      else if data ! pc = 0xCD \<and> pc + 2 < length data then 3
      else if data ! pc = 0xAD \<and> pc + 1 < length data then 2
      else 1)"

function call_cursors :: "byte list \<Rightarrow> nat \<Rightarrow> nat list" where
  "call_cursors data pc =
     (if pc < length data then pc # call_cursors data (pc + call_width data pc) else [])"
  by pat_completeness auto
termination
  by (relation "measure (\<lambda>(data, pc). length data - pc)") (auto simp: call_width_def)

declare call_cursors.simps [simp del]

definition call_targets :: "byte list \<Rightarrow> int \<Rightarrow> nat \<Rightarrow> int set" where
  "call_targets data base pc = set (List.map_filter (call_target data base) (call_cursors data pc))"

text \<open>
  What the loader maintains: the keys of the memory are distinct, nothing is stored
  before the first data record, and afterwards every stored address lies between
  \<open>start_addr\<close> and \<open>end_addr\<close>.
\<close>

definition load_inv :: "load_state \<Rightarrow> bool" where
  "load_inv st =
     (case st of (memory, start_addr, end_addr) \<Rightarrow>
        distinct (map fst memory) \<and>
        (case start_addr of
           None \<Rightarrow> memory = [] \<and> end_addr = 0
         | Some s \<Rightarrow> s \<le> end_addr \<and> (\<forall>a\<in>fst ` set memory. s \<le> a \<and> a < end_addr)))"

section \<open>Properties of the disassembly loop\<close>

lemma loop_end: "\<not> pc < length data \<Longrightarrow> disassemble_loop data b ml pc l out = Some out"
  by (simp add: disassemble_loop.simps)

lemma loop_cap: "cap_reached ml l \<Longrightarrow> disassemble_loop data b ml pc l out = Some out"
  by (simp add: disassemble_loop.simps)

lemma loop_step:
  "pc < length data \<Longrightarrow> \<not> cap_reached ml l \<Longrightarrow> disassemble_step data b pc = Some ins \<Longrightarrow>
   disassemble_loop data b ml pc l out = disassemble_loop data b ml (pc + consumed ins) (l + 1) (out @ [ins])"
  by (subst disassemble_loop.simps) simp

lemma map_option_append: "map_option ((@) (xs @ ys)) r = map_option ((@) xs) (map_option ((@) ys) r)"
  by (cases r) simp_all

lemma map_option_take_Cons:
  "map_option (take (Suc k)) (map_option ((@) [x]) r) = map_option ((@) [x]) (map_option (take k) r)"
  by (cases r) simp_all

lemma loop_acc:
  "disassemble_loop data b ml pc l out = map_option ((@) out) (disassemble_loop data b ml pc l [])"
proof (induction "length data - pc" arbitrary: pc l out rule: less_induct)
  case less
  show ?case
  proof (cases "pc < length data \<and> \<not> cap_reached ml l")
    case False
    then show ?thesis by (auto simp: loop_end loop_cap)
  next
    case True
    then obtain ins where ins: "disassemble_step data b pc = Some ins" "1 \<le> consumed ins"
      using disassemble_step_Some by blast
    with True have m: "length data - (pc + consumed ins) < length data - pc" by auto
    have "disassemble_loop data b ml pc l out
        = disassemble_loop data b ml (pc + consumed ins) (l + 1) (out @ [ins])"
      using True ins by (simp add: loop_step)
    also have "\<dots> = map_option ((@) (out @ [ins])) (disassemble_loop data b ml (pc + consumed ins) (l + 1) [])"
      by (rule less [OF m])
    also have "\<dots> = map_option ((@) out) (map_option ((@) [ins]) (disassemble_loop data b ml (pc + consumed ins) (l + 1) []))"
      by (rule map_option_append)
    also have "map_option ((@) [ins]) (disassemble_loop data b ml (pc + consumed ins) (l + 1) [])
        = disassemble_loop data b ml (pc + consumed ins) (l + 1) ([] @ [ins])"
      by (subst less [OF m]) simp
    also have "\<dots> = disassemble_loop data b ml pc l []"
      using True ins by (simp add: loop_step)
    finally show ?thesis .
  qed
qed

lemma loop_None_lines:
  "disassemble_loop data b None pc l out = disassemble_loop data b None pc l' out"
proof (induction "length data - pc" arbitrary: pc l l' out rule: less_induct)
  case less
  show ?case
  proof (cases "pc < length data")
    case False
    then show ?thesis by (simp add: loop_end)
  next
    case True
    then obtain ins where ins: "disassemble_step data b pc = Some ins" "1 \<le> consumed ins"
      using disassemble_step_Some by blast
    with True have m: "length data - (pc + consumed ins) < length data - pc" by auto
    have nc: "\<not> cap_reached None l" "\<not> cap_reached None l'" by (simp_all add: cap_reached_def)
    have "disassemble_loop data b None (pc + consumed ins) (l + 1) (out @ [ins])
        = disassemble_loop data b None (pc + consumed ins) (l' + 1) (out @ [ins])"
      by (rule less [OF m])
    then show ?thesis
      using True ins nc by (simp add: loop_step)
  qed
qed

lemma loop_zero_cap:
  "disassemble_loop data b (Some 0) pc l out = disassemble_loop data b None pc l out"
proof (induction "length data - pc" arbitrary: pc l out rule: less_induct)
  case less
  show ?case
  proof (cases "pc < length data")
    case False
    then show ?thesis by (simp add: loop_end)
  next
    case True
    then obtain ins where ins: "disassemble_step data b pc = Some ins" "1 \<le> consumed ins"
      using disassemble_step_Some by blast
    with True have m: "length data - (pc + consumed ins) < length data - pc" by auto
    have nc: "\<not> cap_reached None l" "\<not> cap_reached (Some 0) l" by (simp_all add: cap_reached_def)
    show ?thesis
      using less [OF m] True ins nc by (simp add: loop_step)
  qed
qed

lemma loop_total: "\<exists>r. disassemble_loop data b ml pc l out = Some r"
proof (induction "length data - pc" arbitrary: pc l out rule: less_induct)
  case less
  show ?case
  proof (cases "pc < length data \<and> \<not> cap_reached ml l")
    case False
    then show ?thesis by (auto simp: loop_end loop_cap)
  next
    case True
    then obtain ins where ins: "disassemble_step data b pc = Some ins" "1 \<le> consumed ins"
      using disassemble_step_Some by blast
    with True have m: "length data - (pc + consumed ins) < length data - pc" by auto
    show ?thesis
      using less [OF m] True ins by (simp add: loop_step)
  qed
qed

lemma loop_capped:
  assumes "1 \<le> m" "l \<le> m"
  shows "disassemble_loop data b (Some m) pc l [] =
         map_option (take (nat (m - l))) (disassemble_loop data b None pc l [])"
  using assms(2)
proof (induction "length data - pc" arbitrary: pc l rule: less_induct)
  case less
  obtain full where full: "disassemble_loop data b None pc l [] = Some full"
    using loop_total by blast
  show ?case
  proof (cases "pc < length data")
    case False
    then show ?thesis by (simp add: loop_end)
  next
    case True
    then obtain ins where ins: "disassemble_step data b pc = Some ins" "1 \<le> consumed ins"
      using disassemble_step_Some by blast
    with True have ms: "length data - (pc + consumed ins) < length data - pc" by simp
    show ?thesis
    proof (cases "l = m")
      case True
      with assms \<open>pc < length data\<close> full show ?thesis
        by (simp add: loop_cap cap_reached_def)
    next
      case False
      with less.prems have lt: "l + 1 \<le> m" by simp
      have nc: "\<not> cap_reached (Some m) l" "\<not> cap_reached None l"
        using lt by (simp_all add: cap_reached_def)
      have tk: "nat (m - l) = Suc (nat (m - (l + 1)))" using lt by simp
      have "disassemble_loop data b (Some m) pc l []
          = disassemble_loop data b (Some m) (pc + consumed ins) (l + 1) ([] @ [ins])"
        using True nc ins by (simp add: loop_step)
      also have "\<dots> = map_option ((@) [ins]) (disassemble_loop data b (Some m) (pc + consumed ins) (l + 1) [])"
        by (subst loop_acc) simp
      also have "\<dots> = map_option ((@) [ins]) (map_option (take (nat (m - (l + 1))))
                        (disassemble_loop data b None (pc + consumed ins) (l + 1) []))"
        using less.hyps [OF ms lt] by simp
      also have "\<dots> = map_option (take (nat (m - l))) (map_option ((@) [ins])
                        (disassemble_loop data b None (pc + consumed ins) (l + 1) []))"
        by (simp only: tk map_option_take_Cons)
      also have "map_option ((@) [ins]) (disassemble_loop data b None (pc + consumed ins) (l + 1) [])
             = disassemble_loop data b None (pc + consumed ins) (l + 1) ([] @ [ins])"
        by (subst (2) loop_acc) simp
      also have "\<dots> = disassemble_loop data b None pc l []"
        using True nc ins by (simp add: loop_step)
      finally show ?thesis .
    qed
  qed
qed

section \<open>Evaluation on concrete buffers\<close>

lemmas table_defs = HC08_OPCODES_def HC08_OPCODES_entries_def HC08_OPCODES_literal_def upt8 bit_manip_entries_def
  HC08_9E_OPCODES_def HC08_9E_OPCODES_entries_def str_digit_def
lemmas step_defs = disassemble_step_def decode_primary_def decode_9E_def bytes_from_Some
  operand_primary_def operand_9E_def db_line_def direct_operand_def signed_rel_def be16_def
lemmas hex_defs = fmt_0X_def hexchar_def

lemma lookup_9D: "HC08_OPCODES 0x9D = Some (''NOP'', INH, 1)"
  by (simp add: table_defs)

lemma lookup_A6: "HC08_OPCODES 0xA6 = Some (''LDA'', IMM, 2)"
  by (simp add: table_defs)

lemma example_records:
  "disassemble_records [0x9D, 0xA6, 0x05] 0x8000 None
     = Some [\<lparr>addr = 0x8000, raw = [0x9D], mnem = ''NOP'', operand = [], consumed = 1\<rparr>,
             \<lparr>addr = 0x8001, raw = [0xA6, 0x05], mnem = ''LDA'', operand = ''#$05'', consumed = 2\<rparr>]"
  by (simp add: disassemble_records_def disassemble_loop.simps cap_reached_def step_defs lookup_9D lookup_A6 hex_defs)

lemma example_lines:
  "disassemble [0x9D, 0xA6, 0x05] 0x8000 None
     = Some [''8000: 9D              NOP      '', ''8001: A6 05           LDA      #$05'']"
  apply (simp add: disassemble_def example_records format_line_def hex_defs)
  apply (simp add: fmt_s_def numeral_eq_Suc)
  done

section \<open>The instruction cap\<close>

text \<open>
  C10. Passing \<open>max_lines = 0\<close> disables the cap: the result is the full listing, the same
  as with no cap at all. A cap \<open>m \<ge> 1\<close> returns the first \<open>m\<close> lines of the full listing.
\<close>

theorem max_lines_zero_is_no_cap:
  "disassemble data base_addr (Some 0) = disassemble data base_addr None
   \<and> (\<forall>m\<ge>1. disassemble data base_addr (Some m)
          = map_option (take (nat m)) (disassemble data base_addr None))"
  using loop_capped [of _ 0 data base_addr 0]
  by (simp add: disassemble_def disassemble_records_def loop_zero_cap option.map_comp comp_def take_map)


theorem max_lines_zero_is_no_cap_witness:
  "disassemble [0x9D, 0xA6, 0x05] 0x8000 (Some 0)
     = Some [''8000: 9D              NOP      '', ''8001: A6 05           LDA      #$05'']
   \<and> (1::int) \<le> 1
   \<and> disassemble [0x9D, 0xA6, 0x05] 0x8000 (Some 1) = Some [''8000: 9D              NOP      '']"
  using max_lines_zero_is_no_cap [of "[0x9D, 0xA6, 0x05]" "0x8000"] example_lines
  by simp


section \<open>Coverage of the buffer\<close>
















section \<open>Operands of the primary table\<close>

lemma uint_byte_lt: "uint (b :: byte) < 256"
  using uint_bounded [of b] by simp

lemma signed_rel_sint: "signed_rel b = sint b"
proof -
  have hi: "(uint b + 128) mod 256 = uint b - 128" if "uint b > 127"
    using that uint_byte_lt [of b] by (intro int_mod_pos_eq [where q = 1]) simp_all
  have lo: "(uint b + 128) mod 256 = uint b + 128" if "\<not> uint b > 127"
    using that by (simp add: mod_pos_pos_trivial)
  have "sint b = signed_take_bit 7 (uint b)"
    by (simp add: sint_uint)
  also have "\<dots> = take_bit 8 (uint b + 128) - 128"
    by (simp add: signed_take_bit_eq_take_bit_shift)
  also have "\<dots> = (uint b + 128) mod 256 - 128"
    by (simp add: take_bit_eq_mod)
  also have "\<dots> = (if uint b > 127 then uint b - 256 else uint b)"
    using hi lo by simp
  finally show ?thesis by (simp add: signed_rel_def Let_def)
qed

lemma be16_eq: "be16 hi lo = uint hi * 256 + uint lo"
proof -
  have "push_bit 8 (uint hi) AND uint lo = 0"
    by (rule bit_eqI) (auto simp add: bit_simps dest: bit_imp_le_length)
  then have "push_bit 8 (uint hi) + uint lo = push_bit 8 (uint hi) OR uint lo"
    by (rule disjunctive_add_eq_or)
  then show ?thesis by (simp add: be16_def push_bit_eq_mult)
qed

lemma replicate_numeral: "replicate (numeral k) x = x # replicate (pred_numeral k) x"
  by (simp add: numeral_eq_Suc)

lemmas hex_eval = fmt_0X_def hexchar_def replicate_numeral

lemma lookup_9E: "HC08_OPCODES 0x9E = None"
  by (simp add: table_defs)

lemma lookup_20: "HC08_OPCODES 0x20 = Some (''BRA'', REL, 2)"
  by (simp add: table_defs)

lemma lookup_C6: "HC08_OPCODES 0xC6 = Some (''LDA'', EXT, 3)"
  by (simp add: table_defs)

lemma lookup_B6: "HC08_OPCODES 0xB6 = Some (''LDA'', DIR, 2)"
  by (simp add: table_defs)

lemma disassemble_step_primary:
  assumes "HC08_OPCODES (data ! pc) = Some (mn, mode, L)" "pc + L \<le> length data"
  shows "disassemble_step data b pc =
           map_option (\<lambda>opnd. \<lparr>addr = b + int pc, raw = take L (drop pc data), mnem = mn,
                                 operand = opnd, consumed = L\<rparr>)
             (operand_primary data pc (b + int pc) mode L)"
proof -
  from assms(1) have L: "1 \<le> L" using HC08_OPCODES_size by blast
  with assms(2) have pc: "pc < length data" by simp
  from assms(1) lookup_9E have "data ! pc \<noteq> 0x9E" by auto
  with pc assms show ?thesis
    by (cases "operand_primary data pc (b + int pc) mode L")
       (simp_all add: disassemble_step_def decode_primary_def bytes_from_Some)
qed

text \<open>
  C8. A relative-mode instruction at address \<open>A\<close> with tabulated length \<open>L\<close> is rendered
  with the target \<open>A + L + D\<close>, where \<open>D\<close> is the displacement byte read as a signed
  8-bit value, between -128 and 127.
\<close>

theorem branch_target_law:
  assumes "HC08_OPCODES (data ! pc) = Some (mn, REL, L)" "pc + L \<le> length data"
  shows "\<exists>ins. disassemble_step data base_addr pc = Some ins
           \<and> addr ins = base_addr + int pc \<and> consumed ins = L
           \<and> operand ins = ''$'' @ fmt_0X 4 (addr ins + int L + sint (data ! (pc + 1)))
           \<and> - 128 \<le> sint (data ! (pc + 1)) \<and> sint (data ! (pc + 1)) \<le> 127"
proof -
  from assms(1) have "mode_reads REL \<le> L" using HC08_OPCODES_size by blast
  with assms(2) have rd: "pc + 1 < length data" by (simp add: mode_reads_def)
  have rng: "- 128 \<le> sint (data ! (pc + 1))" "sint (data ! (pc + 1)) \<le> 127"
    using sint_ge [of "data ! (pc + 1)"] sint_lt [of "data ! (pc + 1)"] by simp_all
  from rd rng show ?thesis
    by (simp add: disassemble_step_primary [OF assms] operand_primary_def signed_rel_sint)
qed

theorem branch_target_law_witness:
  "HC08_OPCODES ([0x20, 0x80] ! 0) = Some (''BRA'', REL, 2)
   \<and> 0 + 2 \<le> length [0x20, 0x80 :: byte]
   \<and> map_option operand (disassemble_step [0x20, 0x80] 0x8000 0) = Some ''$7F82''
   \<and> sint (0x80 :: byte) = - 128
   \<and> map_option operand (disassemble_step [0x20, 0x7F] 0x8000 0) = Some ''$8081''
   \<and> sint (0x7F :: byte) = 127"
  using branch_target_law [of "[0x20, 0x80]" 0 "''BRA''" 2 "0x8000"]
    branch_target_law [of "[0x20, 0x7F]" 0 "''BRA''" 2 "0x8000"] lookup_20
  by (auto simp add: hex_defs)

lemma get_reg_name_byte: "\<exists>name. get_reg_name (uint (d :: byte)) = Some name"
  using uint_byte_lt [of d] by (simp add: get_reg_name_def split: option.splits)

text \<open>
  C4. An extended-mode operand whose address has an entry in the register table is to be
  rendered with the register's name. \<open>LDA\<close> extended at address 0x0000, which is
  \<open>PORTA\<close> in the table and for \<open>get_reg_name\<close>, is rendered as the raw address
  \<open>$0000\<close>; \<open>LDA\<close> direct at the same address is rendered as \<open><PORTA\<close>.
\<close>

theorem extended_operand_not_resolved:
  "IO_REGS (be16 0x00 0x00) = Some ''PORTA''
   \<and> get_reg_name (be16 0x00 0x00) = Some ''PORTA''
   \<and> disassemble_step [0xC6, 0x00, 0x00] 0x8000 0
      = Some \<lparr>addr = 0x8000, raw = [0xC6, 0x00, 0x00], mnem = ''LDA'', operand = ''$0000'',
               consumed = 3\<rparr>
   \<and> disassemble_step [0xB6, 0x00] 0x8000 0
      = Some \<lparr>addr = 0x8000, raw = [0xB6, 0x00], mnem = ''LDA'', operand = ''<PORTA'',
               consumed = 2\<rparr>"
  by (simp add: step_defs lookup_C6 lookup_B6 lookup_9E hex_eval get_reg_name_def IO_REGS_def
        IO_REGS_entries_def)

section \<open>No pass reads outside the buffer\<close>

lemma find_subroutines_loop_total: "\<exists>r. find_subroutines_loop data base pc subs = Some r"
proof (induction data base pc subs rule: find_subroutines_loop.induct)
  case (1 data base pc subs)
  show ?case
    by (subst find_subroutines_loop.simps) (use 1 in \<open>auto simp: Let_def\<close>)
qed

lemma find_io_accesses_loop_total: "\<exists>r. find_io_accesses_loop data base pc rs ws = Some r"
proof (induction data base pc rs ws rule: find_io_accesses_loop.induct)
  case (1 data base pc rs ws)
  show ?case
    by (subst find_io_accesses_loop.simps) (use 1 in \<open>simp add: Let_def\<close>)
qed

lemma find_ram_usage_loop_total: "\<exists>r. find_ram_usage_loop data base pc rs ws = Some r"
proof (induction data base pc rs ws rule: find_ram_usage_loop.induct)
  case (1 data base pc rs ws)
  show ?case
    by (subst find_ram_usage_loop.simps) (use 1 in \<open>simp add: Let_def\<close>)
qed

lemma scan_printable_total: "\<exists>j. scan_printable data i = Some j"
proof (induction data i rule: scan_printable.induct)
  case (1 data i)
  show ?case
    by (subst scan_printable.simps) (use 1 in \<open>simp\<close>)
qed

lemma find_strings_loop_total: "\<exists>r. find_strings_loop data base min_len i strings = Some r"
proof (induction data base min_len i strings rule: find_strings_loop.induct)
  case (1 data base min_len i strings)
  obtain j where j: "scan_printable data i = Some j" using scan_printable_total by blast
  show ?case
    by (subst find_strings_loop.simps) (use 1 j in \<open>simp add: Let_def\<close>)
qed

lemma note_branch_total: "\<exists>r. note_branch data base pc loops = Some r"
  by (simp add: note_branch_def Let_def)

lemma analyze_main_loop_from_total: "\<exists>r. analyze_main_loop_from data base pc loops = Some r"
proof (induction data base pc loops rule: analyze_main_loop_from.induct)
  case (1 data base pc loops)
  obtain l where l: "note_branch data base pc loops = Some l" using note_branch_total by blast
  show ?case
    by (subst analyze_main_loop_from.simps) (use 1 l in \<open>simp\<close>)
qed

text \<open>
  C9. Every read of the buffer in the six passes goes through \<open>byte_at\<close>, which fails
  outside \<open>[0, len)\<close>. For every buffer, base address and parameter, each pass returns a
  result: no read is ever out of bounds, however the contents cut an instruction short
  at the end.
\<close>

theorem passes_read_inside_buffer:
  "(\<exists>r. disassemble data base max_lines = Some r)
   \<and> (\<exists>r. find_subroutines data base = Some r)
   \<and> (\<exists>r. find_io_accesses data base = Some r)
   \<and> (\<exists>r. find_ram_usage data base = Some r)
   \<and> (\<exists>r. analyze_main_loop data base = Some r)
   \<and> (\<exists>r. find_strings data base min_len = Some r)"
proof -
  obtain d where "disassemble_loop data base max_lines 0 0 [] = Some d"
    using loop_total by blast
  moreover obtain s where "find_subroutines_loop data base 0 {} = Some s"
    using find_subroutines_loop_total by blast
  ultimately show ?thesis
    using find_io_accesses_loop_total [of data base 0 Map.empty Map.empty]
      find_ram_usage_loop_total [of data base 0 Map.empty Map.empty]
      analyze_main_loop_from_total [of data base 0 "[]"]
      find_strings_loop_total [of data base min_len 0 "[]"]
    by (simp add: disassemble_def disassemble_records_def find_subroutines_def find_io_accesses_def
          find_ram_usage_def analyze_main_loop_def find_strings_def)
qed


section \<open>Backward branches\<close>

lemma analyze_main_loop_from_sites:
  "analyze_main_loop_from data base pc loops
     = Some (loops @ List.map_filter (backward_site data base) (branch_cursors data pc))"
proof (induction data base pc loops rule: analyze_main_loop_from.induct)
  case (1 data base pc loops)
  show ?case
  proof (cases "pc < length data")
    case False
    then show ?thesis
      by (simp add: analyze_main_loop_from.simps branch_cursors.simps map_filter_simps)
  next
    case lt: True
    show ?thesis
    proof (cases "data ! pc \<in> set branch_opcodes")
      case False
      with lt have "backward_site data base pc = None" by (simp add: backward_site_def)
      with lt False 1(2) [OF lt, of "data ! pc"] show ?thesis
        by (subst analyze_main_loop_from.simps, subst branch_cursors.simps)
           (simp add: branch_width_def map_filter_simps)
    next
      case True
      obtain l where l: "note_branch data base pc loops = Some l"
        using note_branch_total by blast
      have l': "l = loops @ List.map_filter (backward_site data base) [pc]"
        using l True by (auto simp add: note_branch_def backward_site_def Let_def signed_rel_sint
            map_filter_simps split: if_splits)
      from 1(1) [OF lt _ True l] lt True l l' show ?thesis
        by (subst analyze_main_loop_from.simps, subst branch_cursors.simps)
           (simp add: branch_width_def map_filter_simps split: option.splits)
    qed
  qed
qed

text \<open>
  C2, as stated, fails. The bytes \<open>20 FE\<close> at 0x8000 are recorded with distance 2, not 0;
  and the bytes \<open>20 FF\<close> (displacement -1) are recorded although the target 0x8001 lies
  after the branch address.
\<close>

theorem loop_sites_counterexample:
  "analyze_main_loop [0x20, 0xFE] 0x8000 = Some [(0x8000, 0x8000, 2)]
   \<and> analyze_main_loop [0x20, 0xFF] 0x8000 = Some [(0x8000, 0x8001, 1)]"
  by (simp add: analyze_main_loop_def analyze_main_loop_from.simps note_branch_def
        branch_opcodes_def signed_rel_def)

text \<open>
  C2, amended. The result lists, in scan order and one entry per occurrence, the branch
  opcodes met by the cursor whose displacement byte \<open>D\<close> lies inside the buffer and is
  negative. The recorded tuple is \<open>(A, A + 2 + D, -D)\<close>: the target is at most \<open>A + 1\<close>
  and the recorded distance is \<open>A + 2 - target\<close>.
\<close>

theorem loop_sites_by_negative_displacement:
  "analyze_main_loop data base
     = Some (List.map_filter (backward_site data base) (branch_cursors data 0))
   \<and> (\<forall>pc\<in>set (branch_cursors data 0). \<forall>a t d.
         backward_site data base pc = Some (a, t, d) \<longrightarrow>
           a = base + int pc \<and> t = a + 2 + sint (data ! (pc + 1)) \<and> d = - sint (data ! (pc + 1))
           \<and> t \<le> a + 1 \<and> d = a + 2 - t)"
  by (auto simp add: analyze_main_loop_def analyze_main_loop_from_sites backward_site_def
        split: if_splits)

theorem loop_sites_by_negative_displacement_witness:
  "analyze_main_loop [0x20, 0xFE, 0x20, 0x05, 0x26, 0xFF] 0x8000
     = Some [(0x8000, 0x8000, 2), (0x8004, 0x8005, 1)]
   \<and> branch_cursors [0x20, 0xFE, 0x20, 0x05, 0x26, 0xFF] 0 = [0, 2, 4]
   \<and> backward_site [0x20, 0xFE, 0x20, 0x05, 0x26, 0xFF] 0x8000 0 = Some (0x8000, 0x8000, 2)"
  using loop_sites_by_negative_displacement [of "[0x20, 0xFE, 0x20, 0x05, 0x26, 0xFF]" "0x8000"]
  by (simp add: branch_cursors.simps branch_width_def branch_opcodes_def backward_site_def
        map_filter_simps)

section \<open>Call targets\<close>

lemma call_targets_step:
  "pc < length data \<Longrightarrow>
   call_targets data base pc
     = (case call_target data base pc of None \<Rightarrow> {} | Some t \<Rightarrow> {t})
       \<union> call_targets data base (pc + call_width data pc)"
  unfolding call_targets_def
  by (subst call_cursors.simps) (simp add: map_filter_simps split: option.splits)

lemma call_targets_end: "\<not> pc < length data \<Longrightarrow> call_targets data base pc = {}"
  unfolding call_targets_def
  by (subst call_cursors.simps) (simp add: map_filter_simps)

lemma find_subroutines_loop_targets:
  "find_subroutines_loop data base pc subs = Some (subs \<union> call_targets data base pc)"
proof (induction data base pc subs rule: find_subroutines_loop.induct)
  case (1 data base pc subs)
  show ?case
  proof (cases "pc < length data")
    case False
    then show ?thesis
      by (simp add: find_subroutines_loop.simps call_targets_end)
  next
    case True
    show ?thesis
      by (subst find_subroutines_loop.simps, subst call_targets_step [OF True])
         (use True 1 in \<open>auto simp add: call_target_def call_width_def be16_eq signed_rel_sint\<close>)
  qed
qed

text \<open>
  C7. The subroutine scan returns an ascending list without duplicates whose elements are
  exactly the targets of the three call forms met by the cursor: the operand byte of
  \<open>JSR\<close> direct (0xBD) as it is, the big-endian 16-bit operand of \<open>JSR\<close> extended
  (0xCD), and address + 2 + signed displacement for \<open>BSR\<close> (0xAD).
\<close>

theorem find_subroutines_sorted_set:
  "\<exists>r. find_subroutines data base = Some r \<and> sorted r \<and> distinct r
        \<and> set r = {t. \<exists>pc\<in>set (call_cursors data 0). call_target data base pc = Some t}"
proof -
  have fin: "finite (call_targets data base 0)" by (simp add: call_targets_def)
  have "call_targets data base 0
      = {t. \<exists>pc\<in>set (call_cursors data 0). call_target data base pc = Some t}"
    by (force simp add: call_targets_def map_filter_def)
  with fin show ?thesis
    by (simp add: find_subroutines_def find_subroutines_loop_targets)
qed

theorem find_subroutines_sorted_set_witness:
  "find_subroutines [0xCD, 0x90, 0x00, 0xBD, 0x10, 0xAD, 0xFE, 0xBD, 0x10] 0x8000
     = Some [0x10, 0x8005, 0x9000]
   \<and> call_cursors [0xCD, 0x90, 0x00, 0xBD, 0x10, 0xAD, 0xFE, 0xBD, 0x10] 0 = [0, 3, 5, 7]"
proof -
  let ?d = "[0xCD, 0x90, 0x00, 0xBD, 0x10, 0xAD, 0xFE, 0xBD, 0x10] :: byte list"
  have c: "call_cursors ?d 0 = [0, 3, 5, 7]"
    by (simp add: call_cursors.simps call_width_def)
  have t: "{t. \<exists>pc\<in>set (call_cursors ?d 0). call_target ?d 0x8000 pc = Some t}
      = set [0x9000, 0x10, 0x8005, 0x10]"
    by (auto simp add: c call_target_def)
  from find_subroutines_sorted_set [of ?d "0x8000"] obtain r where
    r: "find_subroutines ?d 0x8000 = Some r" "sorted r" "distinct r"
       "set r = set [0x9000, 0x10, 0x8005, 0x10]"
    unfolding t by blast
  have "sorted [0x10, 0x8005, 0x9000 :: int]" "distinct [0x10, 0x8005, 0x9000 :: int]"
       "set [0x10, 0x8005, 0x9000 :: int] = set r"
    using r(4) by auto
  with r(2,3) have "r = [0x10, 0x8005, 0x9000]"
    by (metis sorted_distinct_set_unique)
  with r(1) c show ?thesis by simp
qed

section \<open>RAM usage counters\<close>

text \<open>
  C5. \<open>STX\<close> extended (0xCF) at RAM address 0x0100 increments the read counter, not
  the write counter; only \<open>STA\<close> extended (0xC7) is counted as a write. The register
  scan, by contrast, records \<open>STX\<close> direct (0xBF) as a write.
\<close>

theorem stx_extended_counted_as_read:
  "find_ram_usage [0xCF, 0x01, 0x00] 0x8000 = Some ([0x0100 \<mapsto> 1], Map.empty)
   \<and> find_ram_usage [0xC7, 0x01, 0x00] 0x8000 = Some (Map.empty, [0x0100 \<mapsto> 1])
   \<and> find_io_accesses [0xBF, 0x00] 0x8000 = Some (Map.empty, [0x00 \<mapsto> [0x8000]])"
  by (simp add: find_ram_usage_def find_ram_usage_loop.simps find_io_accesses_def
        find_io_accesses_loop.simps be16_def bump_def note_site_def append_site_def
        IO_REGS_pdm_def IO_REGS_pdm_entries_def)


section \<open>Properties of the loader\<close>

lemma fold_update_distinct:
  "distinct (map fst m) \<Longrightarrow>
   distinct (map fst (fold (\<lambda>(i, b) m. AList.update (address + int i) b m) xs m))"
  by (induction xs arbitrary: m) (auto simp: distinct_update)

lemma fold_update_dom:
  "fst ` set (fold (\<lambda>(i, b) m. AList.update (address + int i) b m) xs m)
     = fst ` set m \<union> (\<lambda>(i, b). address + int i) ` set xs"
proof (induction xs arbitrary: m)
  case Nil
  then show ?case by simp
next
  case (Cons x xs)
  obtain i b where x: "x = (i, b)" by (cases x)
  let ?f = "\<lambda>(i, b) m. AList.update (address + int i) b m"
  let ?img = "\<lambda>ys. (\<lambda>(i, b). address + int i) ` set ys"
  have "fst ` set (fold ?f (x # xs) m)
      = fst ` set (AList.update (address + int i) b m) \<union> ?img xs"
    using Cons.IH [of "AList.update (address + int i) b m"] x by simp
  also have "\<dots> = insert (address + int i) (fst ` set m) \<union> ?img xs"
    by (simp add: dom_update)
  also have "\<dots> = fst ` set m \<union> ?img (x # xs)"
    using x by auto
  finally show ?case .
qed

lemma enumerate_dom:
  "(\<lambda>(i, b). address + int i) ` set (enumerate 0 data) = {address + int i | i. i < length data}"
  by (force simp add: in_set_enumerate_eq image_iff)

lemma store_record_inv:
  assumes "load_inv st"
  shows "load_inv (store_record st address data)"
proof -
  obtain m s e where st: "st = (m, s, e)" by (cases st)
  let ?m' = "fold (\<lambda>(i, b) m. AList.update (address + int i) b m) (enumerate 0 data) m"
  have dom: "fst ` set ?m' = fst ` set m \<union> {address + int i | i. i < length data}"
    by (simp only: fold_update_dom enumerate_dom)
  have dist: "distinct (map fst ?m')"
    using assms st by (intro fold_update_distinct) (simp add: load_inv_def)
  show ?thesis
  proof (cases s)
    case None
    with assms st have "m = []" "e = 0" by (simp_all add: load_inv_def)
    with None st dist dom show ?thesis
      by (auto simp add: load_inv_def store_record_def Let_def simp del: fold_simps)
  next
    case (Some s0)
    with assms st have "s0 \<le> e" "\<forall>a\<in>fst ` set m. s0 \<le> a \<and> a < e"
      by (simp_all add: load_inv_def)
    with Some st dist dom show ?thesis
      by (auto simp add: load_inv_def store_record_def Let_def simp del: fold_simps)
  qed
qed

lemma fold_update_lookup:
  "map_of (fold (\<lambda>(i, b) m. AList.update (address + int i) b m) (enumerate n data) m) k
     = (if address + int n \<le> k \<and> k < address + int n + int (length data)
        then Some (data ! nat (k - address - int n)) else map_of m k)"
proof (induction data arbitrary: n m)
  case Nil
  then show ?case by auto
next
  case (Cons x xs)
  have "map_of (fold (\<lambda>(i, b) m. AList.update (address + int i) b m) (enumerate n (x # xs)) m) k
      = map_of (fold (\<lambda>(i, b) m. AList.update (address + int i) b m) (enumerate (Suc n) xs)
                 (AList.update (address + int n) x m)) k"
    by simp
  also have "\<dots> = (if address + int (Suc n) \<le> k \<and> k < address + int (Suc n) + int (length xs)
        then Some (xs ! nat (k - address - int (Suc n)))
        else map_of (AList.update (address + int n) x m) k)"
    by (rule Cons.IH)
  also have "\<dots> = (if address + int n \<le> k \<and> k < address + int n + int (length (x # xs))
        then Some ((x # xs) ! nat (k - address - int n)) else map_of m k)"
  proof (cases "k = address + int n")
    case True
    then show ?thesis by (simp add: update_conv')
  next
    case False
    have "nat (k - address - int n) = Suc (nat (k - address - int (Suc n)))"
      if "address + int n \<le> k" using that False by simp
    with False show ?thesis by (auto simp add: update_conv')
  qed
  finally show ?case .
qed

text \<open>After a data record, the memory holds the bytes of the record at its addresses.\<close>

lemma store_record_lookup:
  assumes "store_record (memory, start_addr, end_addr) address data = (memory', start_addr', end_addr')"
  shows "map_of memory' k
     = (if address \<le> k \<and> k < address + int (length data)
        then Some (data ! nat (k - address)) else map_of memory k)"
  using assms fold_update_lookup [of address 0 data memory k]
  by (auto simp add: store_record_def Let_def simp del: fold_simps)

lemma parse_line_cases:
  assumes "parse_line int16 fromhex st l = Inr st'"
  shows "st' = st \<or> (is_data_line l \<and> (\<exists>address data. st' = store_record st address data))"
  using assms
  by (auto simp add: parse_line_def is_data_line_def raise_value_error_def Let_def
      split: if_splits sum.splits option.splits)

lemma parse_line_inv:
  "parse_line int16 fromhex st l = Inr st' \<Longrightarrow> load_inv st \<Longrightarrow> load_inv st'"
  using parse_line_cases store_record_inv by blast

lemma parse_lines_inv:
  "parse_lines int16 fromhex st ls = Inr st' \<Longrightarrow> load_inv st \<Longrightarrow> load_inv st'"
proof (induction ls arbitrary: st)
  case Nil
  then show ?case by simp
next
  case (Cons l ls)
  then show ?case
    by (auto split: sum.splits dest: parse_line_inv)
qed

lemma parse_lines_no_data:
  "parse_lines int16 fromhex st ls = Inr st' \<Longrightarrow> \<forall>l\<in>set ls. \<not> is_data_line l \<Longrightarrow> st' = st"
proof (induction ls arbitrary: st)
  case Nil
  then show ?case by simp
next
  case (Cons l ls)
  then show ?case
    by (auto split: sum.splits dest: parse_line_cases)
qed

lemma fold_fill:
  "k \<le> length b \<Longrightarrow>
   length (fold (\<lambda>i b. b[i := x]) [0..<k] b) = length b
   \<and> (\<forall>j<length b. fold (\<lambda>i b. b[i := x]) [0..<k] b ! j = (if j < k then x else b ! j))"
  by (induction k) (auto simp: nth_list_update less_Suc_eq)

lemma fold_copy:
  assumes "distinct (map fst m)"
  shows "length (fold (\<lambda>(a, byte) b. let offset = a - s in
                        if 0 \<le> offset \<and> offset < sz then b[nat offset := byte] else b) m b)
           = length b
       \<and> (\<forall>j<length b. int (length b) = sz \<longrightarrow>
            fold (\<lambda>(a, byte) b. let offset = a - s in
                        if 0 \<le> offset \<and> offset < sz then b[nat offset := byte] else b) m b ! j
            = (case map_of m (s + int j) of Some v \<Rightarrow> v | None \<Rightarrow> b ! j))"
  using assms
proof (induction m arbitrary: b)
  case Nil
  then show ?case by simp
next
  case (Cons p m)
  obtain a v where p: "p = (a, v)" by (cases p)
  let ?g = "\<lambda>(a, byte) b. let offset = a - s in
              if 0 \<le> offset \<and> offset < sz then b[nat offset := byte] else b"
  let ?b' = "?g (a, v) b"
  from Cons.prems p have d: "distinct (map fst m)" and na: "a \<notin> fst ` set m" by auto
  have len': "length ?b' = length b" by (simp add: Let_def)
  from Cons.IH [OF d, of ?b'] have
    ih1: "length (fold ?g m ?b') = length ?b'" and
    ih2: "\<forall>j<length ?b'. int (length ?b') = sz \<longrightarrow>
            fold ?g m ?b' ! j = (case map_of m (s + int j) of Some v \<Rightarrow> v | None \<Rightarrow> ?b' ! j)"
    by blast+
  have f: "fold ?g (p # m) b = fold ?g m ?b'" by (simp add: p)
  have "\<forall>j<length b. int (length b) = sz \<longrightarrow>
          fold ?g m ?b' ! j = (case map_of (p # m) (s + int j) of Some v \<Rightarrow> v | None \<Rightarrow> b ! j)"
  proof (intro allI impI)
    fix j assume j: "j < length b" "int (length b) = sz"
    with ih2 len' have e: "fold ?g m ?b' ! j
        = (case map_of m (s + int j) of Some v \<Rightarrow> v | None \<Rightarrow> ?b' ! j)" by simp
    show "fold ?g m ?b' ! j = (case map_of (p # m) (s + int j) of Some v \<Rightarrow> v | None \<Rightarrow> b ! j)"
    proof (cases "a = s + int j")
      case True
      with na have "map_of m (s + int j) = None" by (simp add: map_of_eq_None_iff)
      with e True j p show ?thesis by (simp add: Let_def)
    next
      case False
      then have "?b' ! j = b ! j" using j by (auto simp add: Let_def nth_list_update)
      with e False p show ?thesis by (simp split: option.splits)
    qed
  qed
  with f ih1 len' show ?case by simp
qed

lemmas loader_eval = parse_srec_def parse_line_def strip_def is_space_def py_slice_def hex_int_def
  hex_val_def raise_value_error_def store_record_def is_data_line_def

lemma example_header_only:
  "parse_srec hex_int hex_bytes [''S0030000FC'', ''S9030000FC''] = Inr ([], None, 0)"
  by (simp add: loader_eval)

lemma example_image:
  "parse_srec hex_int hex_bytes [''S0030000FC'', ''S1058000A605CF'', ''S10480049DDA'', ''S9030000FC'']
     = Inr ([(0x8000, 0xA6), (0x8001, 0x05), (0x8004, 0x9D)], Some 0x8000, 0x8005)"
  by (simp add: loader_eval)

lemma parse_lines_no_data_result:
  assumes "\<forall>l\<in>set ls. \<not> is_data_line l"
  shows "parse_lines int16 fromhex st ls = Inr st
         \<or> (\<exists>e. \<exists>l\<in>set ls. parse_line int16 fromhex st l = Inl e
                 \<and> parse_lines int16 fromhex st ls = Inl e)"
  using assms
proof (induction ls)
  case Nil
  then show ?case by simp
next
  case (Cons l ls)
  show ?case
  proof (cases "parse_line int16 fromhex st l")
    case (Inl e)
    then show ?thesis by auto
  next
    case (Inr st')
    with Cons.prems parse_line_cases [OF Inr] have "st' = st" by auto
    with Inr Cons show ?thesis by auto
  qed
qed

text \<open>
  C3, as stated, fails. A file with a header and an end record but no data record, and
  the empty file, are parsed without any error: \<open>parse_srec\<close> returns the empty memory
  with \<open>start_addr = None\<close> and \<open>end_addr = 0\<close>.
\<close>

theorem no_data_records_counterexample:
  "\<not> is_data_line ''S0030000FC'' \<and> \<not> is_data_line ''S9030000FC''
   \<and> parse_srec hex_int hex_bytes [''S0030000FC'', ''S9030000FC''] = Inr ([], None, 0)
   \<and> parse_srec hex_int hex_bytes [] = Inr ([], None, 0)"
  by (simp add: loader_eval)

text \<open>
  C3, amended. When no line is a data record, \<open>parse_srec\<close> reports no load error of its
  own: either it returns the empty memory with \<open>start_addr = None\<close> and \<open>end_addr = 0\<close>,
  or it stops on a line that itself raises (a field conversion that fails, or a line
  that is only the marker). No image can be made of the
  empty result: \<open>save_binary\<close> fails on the missing start address.
\<close>

theorem no_data_records_returns_empty:
  assumes "\<forall>l\<in>set file_lines. \<not> is_data_line l"
  shows "(parse_srec int16 fromhex file_lines = Inr ([], None, 0)
          \<or> (\<exists>e. \<exists>l\<in>set file_lines. parse_line int16 fromhex ([], None, 0) l = Inl e
                  \<and> parse_srec int16 fromhex file_lines = Inl e))
         \<and> save_binary [] None 0 = Inl TypeError"
  using parse_lines_no_data_result [OF assms, of int16 fromhex "([], None, 0)"]
  by (simp add: parse_srec_def save_binary_def)

theorem no_data_records_returns_empty_witness:
  "\<not> is_data_line ''S0030000FC'' \<and> \<not> is_data_line ''S9030000FC''
   \<and> parse_line hex_int hex_bytes ([], None, 0) ''S0030000FC'' = Inr ([], None, 0)
   \<and> parse_line hex_int hex_bytes ([], None, 0) ''S9030000FC'' = Inr ([], None, 0)
   \<and> parse_srec hex_int hex_bytes [''S0030000FC'', ''S9030000FC''] = Inr ([], None, 0)
   \<and> save_binary [] None 0 = Inl TypeError"
proof -
  have h: "\<forall>l\<in>set [''S0030000FC'', ''S9030000FC'']. \<not> is_data_line l"
    by (simp add: loader_eval)
  have p: "parse_line hex_int hex_bytes ([], None, 0) ''S0030000FC'' = Inr ([], None, 0)"
          "parse_line hex_int hex_bytes ([], None, 0) ''S9030000FC'' = Inr ([], None, 0)"
    by (simp_all add: loader_eval)
  from no_data_records_returns_empty [OF h, of hex_int hex_bytes] h p show ?thesis
    by auto
qed

text \<open>
  C6. After a load that met a data record, \<open>save_binary\<close> succeeds and the file it
  writes has \<open>end_addr - start_addr\<close> bytes; every address stored in the memory lies in
  the range and its byte is found at offset \<open>address - start_addr\<close>; every address of
  the range that was never written reads back as 0xFF.
\<close>

theorem load_then_save_round_trip:
  assumes "parse_srec int16 fromhex file_lines = Inr (memory, Some s, e)"
  shows "\<exists>binary. save_binary memory (Some s) e = Inr (binary, e - s)
           \<and> int (length binary) = e - s
           \<and> (\<forall>a b. map_of memory a = Some b \<longrightarrow> s \<le> a \<and> a < e \<and> binary ! nat (a - s) = b)
           \<and> (\<forall>a. s \<le> a \<and> a < e \<and> map_of memory a = None \<longrightarrow> binary ! nat (a - s) = 0xFF)"
proof -
  have "load_inv ([], None, 0)" by (simp add: load_inv_def)
  with assms have "load_inv (memory, Some s, e)"
    unfolding parse_srec_def by (rule parse_lines_inv)
  then have dist: "distinct (map fst memory)" and se: "s \<le> e"
    and rng: "\<forall>a\<in>fst ` set memory. s \<le> a \<and> a < e"
    by (simp_all add: load_inv_def)
  let ?sz = "e - s"
  let ?b1 = "fold (\<lambda>i b. b[i := 0xFF]) [0..<nat ?sz] (replicate (nat ?sz) (0 :: byte))"
  let ?g = "\<lambda>(a, byte) b. let offset = a - s in
              if 0 \<le> offset \<and> offset < ?sz then b[nat offset := byte] else b"
  let ?b2 = "fold ?g memory ?b1"
  from fold_fill [of "nat ?sz" "replicate (nat ?sz) (0 :: byte)" "0xFF"]
  have l1: "length ?b1 = nat ?sz" and n1: "\<forall>j<nat ?sz. ?b1 ! j = 0xFF" by simp_all
  from fold_copy [OF dist, of s ?sz ?b1] l1 se
  have l2: "length ?b2 = nat ?sz"
    and n2: "\<forall>j<nat ?sz. ?b2 ! j = (case map_of memory (s + int j) of Some v \<Rightarrow> v | None \<Rightarrow> ?b1 ! j)"
    by simp_all
  have sv: "save_binary memory (Some s) e = Inr (?b2, ?sz)"
    using se by (simp add: save_binary_def Let_def)
  have w: "s \<le> a \<and> a < e \<and> ?b2 ! nat (a - s) = b" if "map_of memory a = Some b" for a b
  proof -
    from that have "a \<in> fst ` set memory" by (force dest: map_of_SomeD)
    with rng have r: "s \<le> a" "a < e" by auto
    then have "nat (a - s) < nat ?sz" by simp
    with n2 have "?b2 ! nat (a - s)
        = (case map_of memory (s + int (nat (a - s))) of Some v \<Rightarrow> v | None \<Rightarrow> ?b1 ! nat (a - s))"
      by blast
    with r that show ?thesis by simp
  qed
  have u: "?b2 ! nat (a - s) = 0xFF" if "s \<le> a" "a < e" "map_of memory a = None" for a
  proof -
    from that have j: "nat (a - s) < nat ?sz" by simp
    with n2 have "?b2 ! nat (a - s)
        = (case map_of memory (s + int (nat (a - s))) of Some v \<Rightarrow> v | None \<Rightarrow> ?b1 ! nat (a - s))"
      by blast
    with that n1 j show ?thesis by simp
  qed
  from sv l2 se w u show ?thesis by (intro exI [of _ ?b2]) auto
qed

theorem load_then_save_round_trip_witness:
  "parse_srec hex_int hex_bytes [''S0030000FC'', ''S1058000A605CF'', ''S10480049DDA'', ''S9030000FC'']
     = Inr ([(0x8000, 0xA6), (0x8001, 0x05), (0x8004, 0x9D)], Some 0x8000, 0x8005)
   \<and> save_binary [(0x8000, 0xA6), (0x8001, 0x05), (0x8004, 0x9D)] (Some 0x8000) 0x8005
       = Inr ([0xA6, 0x05, 0xFF, 0xFF, 0x9D], 5)"
proof -
  let ?m = "[(0x8000, 0xA6), (0x8001, 0x05), (0x8004, 0x9D)] :: memory"
  from load_then_save_round_trip [OF example_image] obtain binary where
    b: "save_binary ?m (Some 0x8000) 0x8005 = Inr (binary, 0x8005 - 0x8000)"
       "int (length binary) = 0x8005 - 0x8000"
       "\<forall>a b. map_of ?m a = Some b \<longrightarrow> 0x8000 \<le> a \<and> a < 0x8005 \<and> binary ! nat (a - 0x8000) = b"
       "\<forall>a. 0x8000 \<le> a \<and> a < 0x8005 \<and> map_of ?m a = None \<longrightarrow> binary ! nat (a - 0x8000) = 0xFF"
    by blast
  from b(2) have len: "length binary = 5" by simp
  from b(3) [rule_format, of "0x8000" "0xA6"] have n0: "binary ! 0 = 0xA6" by simp
  from b(3) [rule_format, of "0x8001" "0x05"] have n1: "binary ! 1 = 0x05" by simp
  from b(4) [rule_format, of "0x8002"] have n2: "binary ! 2 = 0xFF" by simp
  from b(4) [rule_format, of "0x8003"] have n3: "binary ! 3 = 0xFF" by simp
  from b(3) [rule_format, of "0x8004" "0x9D"] have n4: "binary ! 4 = 0x9D" by simp
  have "binary = [0xA6, 0x05, 0xFF, 0xFF, 0x9D]"
  proof (rule nth_equalityI)
    show "length binary = length [0xA6, 0x05, 0xFF, 0xFF, 0x9D :: byte]" using len by simp
  next
    fix i assume "i < length binary"
    with len have "i = 0 \<or> i = 1 \<or> i = 2 \<or> i = 3 \<or> i = 4" by auto
    with n0 n1 n2 n3 n4 show "binary ! i = [0xA6, 0x05, 0xFF, 0xFF, 0x9D] ! i" by auto
  qed
  with b(1) example_image show ?thesis by simp
qed


end
